theory Spec2Isabelle
  imports Main "HOL-Library.Sublist" "HOL-Library.AList"
begin

section \<open>Setup engine: data model and environment\<close>

text \<open>
  The development embeds the TypeScript sources of the setup engine
  (\<^verbatim>\<open>executor.ts\<close>, \<^verbatim>\<open>planner.ts\<close>, \<^verbatim>\<open>journal.ts\<close>, \<^verbatim>\<open>analyzer/file-analyzer.ts\<close>,
  \<^verbatim>\<open>analyzer/config-analyzer.ts\<close>) as HOL functions.

  Conventions.
  \<^item> A \<^verbatim>\<open>Buffer\<close> and a JavaScript string are both lists of characters.
  \<^item> A resolved absolute path is the list of its components (\<^verbatim>\<open>/a/b\<close> is \<open>[''a'', ''b'']\<close>,
    the root directory is \<open>[]\<close>); operation paths, as the plan carries them, stay strings.
  \<^item> Library functions whose results the engine only passes along (SHA-256, text codecs,
    the JSON printer and parser, regular-expression replacement, the clock) are fields of
    an environment record that every function takes as its first argument.
  \<^item> An exception is a value \<open>Inl e\<close> of a sum type; \<open>undefined\<close> is \<open>None\<close>.
\<close>

type_synonym bytes = string
type_synonym path = "string list"

subsection \<open>JSON values\<close>

text \<open>
  An object is an association list in key order, as \<^verbatim>\<open>Object.entries\<close> and
  \<^verbatim>\<open>JSON.stringify\<close> see it. Numbers are integers: the engine never computes with them.

  The last two constructors are not JSON. They are what a property access finds on the
  prototype chain of a parsed value: a built-in method (of which prototype, under which
  name), or the prototype object itself. \<^verbatim>\<open>JSON.parse\<close> never yields them; the engine meets
  them because it reads a property with \<^verbatim>\<open>parent[segment]\<close> and tests it with \<^verbatim>\<open>in\<close>.
\<close>

datatype prototype = ObjectPrototype | ArrayPrototype

datatype json =
    JNull
  | JBool bool
  | JNum int
  | JStr string
  | JArr "json list"
  | JObj "(string \<times> json) list"
  | JsFunction prototype string
  | JsPrototype prototype

section \<open>Operations (setup-operations/src/types/types.ts)\<close>

datatype file_action = FileEnsure | FileUpdate | FileDelete
datatype config_action = ConfigMerge | ConfigSet | ConfigUnset
datatype script_action = ScriptEnsure | ScriptUpdate | ScriptDelete
datatype merge_strategy = Shallow | Deep | Replace
datatype script_resolution = Keep | ReplaceExisting | Prompt

record template_spec =
  tpl_source :: string
  tpl_variables :: "(string \<times> string) list option"

record file_operation =
  fo_action :: file_action
  fo_path :: string
  fo_content :: "string option"
  fo_template :: "template_spec option"
  fo_encoding :: "string option"
  fo_mode :: "nat option"
  fo_checksum :: "string option"

record config_operation =
  co_action :: config_action
  co_path :: string
  co_pointer :: string
  co_value :: "json option"
  co_strategy :: "merge_strategy option"

record script_operation =
  so_action :: script_action
  so_file :: string
  so_name :: string
  so_command :: "string option"
  so_conflictResolution :: "script_resolution option"

text \<open>
  The tagged union. A \<^verbatim>\<open>code\<close> operation carries only its target file here (the engine
  never looks at the rest); \<open>OtherOp kind\<close> is an operation of a kind the core does not
  know, as the tests build with \<^verbatim>\<open>as any\<close>.
\<close>

datatype operation =
    FileOp file_operation
  | ConfigOp config_operation
  | CodeOp string
  | ScriptOp script_operation
  | OtherOp string

text \<open>
  Of the metadata the engine reads the id, the dependencies and the annotation
  \<^verbatim>\<open>rawContentBase64\<close> (present only when it is a string).
\<close>

record operation_metadata =
  md_id :: string
  md_dependencies :: "string list option"
  md_rawContentBase64 :: "string option"

record operation_with_metadata =
  owm_operation :: operation
  owm_metadata :: operation_metadata

definition op_id :: "operation_with_metadata \<Rightarrow> string" where
  "op_id op = md_id (owm_metadata op)"

section \<open>Journal entries (contracts.ts)\<close>

record operation_snapshot =
  snap_exists :: bool
  snap_content :: "string option"
  snap_checksum :: "string option"
  snap_metadata :: "operation_metadata option"

text \<open>The timestamp of an entry is the reading of the clock, not its ISO-8601 rendering.\<close>

record journal_entry =
  je_timestamp :: nat
  je_operation :: operation_with_metadata
  je_before :: operation_snapshot
  je_after :: "operation_snapshot option"
  je_backupPath :: "path option"

section \<open>The environment: library functions and the clock\<close>

record env =
  sha256_hex :: "bytes \<Rightarrow> string"
  buffer_toString :: "string \<Rightarrow> bytes \<Rightarrow> string"
  buffer_from :: "string \<Rightarrow> string \<Rightarrow> bytes"
  base64_decode :: "string \<Rightarrow> bytes"
  json_parse :: "string \<Rightarrow> json option"
  json_pretty :: "json \<Rightarrow> string"
  journal_pretty :: "journal_entry list \<Rightarrow> string"
  regex_replace_var :: "string \<Rightarrow> string \<Rightarrow> string \<Rightarrow> string"
  date_now :: "nat \<Rightarrow> nat"
  chmod_permitted :: "string list \<Rightarrow> bool"

section \<open>The file system\<close>

text \<open>
  The file system is a finite map from resolved paths to regular files (bytes and
  permission bits) together with the set of directories that \<^verbatim>\<open>mkdir\<close> created.
  Reading a missing file fails with \<^verbatim>\<open>ENOENT\<close>, reading a directory with \<^verbatim>\<open>EISDIR\<close>;
  \<^verbatim>\<open>chmod\<close> fails with \<^verbatim>\<open>ERR_OUT_OF_RANGE\<close> on a mode that is no 32-bit unsigned integer and
  with \<^verbatim>\<open>EPERM\<close> on a path whose permission bits the process may not change (the field
  \<open>chmod_permitted\<close> of the environment); every other call succeeds. \<open>ticks\<close> counts the
  calls of \<^verbatim>\<open>Date.now()\<close>, whose \<open>n\<close>-th reading is \<open>date_now E n\<close>.
\<close>

record fnode =
  f_bytes :: bytes
  f_mode :: nat

record world =
  files :: "path \<rightharpoonup> fnode"
  dirs :: "path set"
  ticks :: nat

datatype io_error = ENOENT | EISDIR | EPERM | ERR_OUT_OF_RANGE

definition fs_readFile :: "world \<Rightarrow> path \<Rightarrow> io_error + bytes" where
  "fs_readFile w p =
     (case files w p of
        Some f \<Rightarrow> Inr (f_bytes f)
      | None \<Rightarrow> if p \<in> dirs w then Inl EISDIR else Inl ENOENT)"

definition io_message :: "io_error \<Rightarrow> string" where
  "io_message e = (case e of ENOENT \<Rightarrow> ''ENOENT: no such file or directory''
                   | EISDIR \<Rightarrow> ''EISDIR: illegal operation on a directory''
                   | EPERM \<Rightarrow> ''EPERM: operation not permitted''
                   | ERR_OUT_OF_RANGE \<Rightarrow> ''ERR_OUT_OF_RANGE: the value of mode is out of range'')"

section \<open>Decimal rendering of a number in a template literal\<close>

definition digit_char :: "nat \<Rightarrow> char" where
  "digit_char d = ''0123456789'' ! d"

function show_nat :: "nat \<Rightarrow> string" where
  "show_nat n = (if n < 10 then [digit_char n] else show_nat (n div 10) @ [digit_char (n mod 10)])"
  by pat_completeness auto
termination
  by (relation "measure id") auto

declare show_nat.simps [simp del]

section \<open>JSON pointers and JavaScript values\<close>

text \<open>\<^verbatim>\<open>String.prototype.split('/')\<close> and the two global replacements of \<^verbatim>\<open>decodePointer\<close>.\<close>

fun split_on :: "char \<Rightarrow> string \<Rightarrow> string list" where
  "split_on c [] = [[]]"
| "split_on c (x # s) =
     (if x = c then [] # split_on c s
      else (case split_on c s of [] \<Rightarrow> [[x]] | w # ws \<Rightarrow> (x # w) # ws))"

fun replace_pair :: "char \<Rightarrow> char \<Rightarrow> char \<Rightarrow> string \<Rightarrow> string" where
  "replace_pair a b r (x # y # s) =
     (if x = a \<and> y = b then r # replace_pair a b r s else x # replace_pair a b r (y # s))"
| "replace_pair a b r s = s"

definition decodePointer :: "string \<Rightarrow> string list" where
  "decodePointer pointer =
     (if pointer = [] \<or> pointer = ''/'' then []
      else map (\<lambda>segment. replace_pair CHR ''~'' CHR ''0'' CHR ''~''
                   (replace_pair CHR ''~'' CHR ''1'' CHR ''/'' segment))
             (drop 1 (split_on CHR ''/'' pointer)))"

text \<open>
  Property access \<^verbatim>\<open>v[key]\<close>. An object answers for its own keys, an array for its
  canonical indices (below \<open>2\<^sup>3\<^sup>2 - 1\<close>) and for \<^verbatim>\<open>length\<close>, a string for its characters and
  its length. What is not an own property is looked up on the prototype chain:
  \<^verbatim>\<open>__proto__\<close> answers with the prototype, the names of the built-in methods with a
  function. The two lists are those of ECMAScript 2023, and the prototypes are taken as
  the engine finds them at start. For a string, a number or a boolean \<open>js_get\<close> answers for
  the own properties only; the analyzer never reads another, and the executor reads
  through \<open>js_read\<close> below, which leaves the model there.
\<close>

definition object_prototype_functions :: "string list" where
  "object_prototype_functions =
     [''constructor'', ''__defineGetter__'', ''__defineSetter__'', ''hasOwnProperty'',
      ''__lookupGetter__'', ''__lookupSetter__'', ''isPrototypeOf'', ''propertyIsEnumerable'',
      ''toString'', ''valueOf'', ''toLocaleString'']"

definition array_prototype_functions :: "string list" where
  "array_prototype_functions =
     [''constructor'', ''at'', ''concat'', ''copyWithin'', ''fill'', ''find'', ''findIndex'',
      ''findLast'', ''findLastIndex'', ''lastIndexOf'', ''pop'', ''push'', ''reverse'', ''shift'',
      ''unshift'', ''slice'', ''sort'', ''splice'', ''includes'', ''indexOf'', ''join'', ''keys'',
      ''entries'', ''values'', ''forEach'', ''filter'', ''flat'', ''flatMap'', ''map'', ''every'',
      ''some'', ''reduce'', ''reduceRight'', ''toLocaleString'', ''toString'', ''toReversed'',
      ''toSorted'', ''toSpliced'', ''with'']"

text \<open>The properties of a prototype object, its own and those it inherits.\<close>

definition prototype_get :: "prototype \<Rightarrow> string \<Rightarrow> json option" where
  "prototype_get p key =
     (case p of
        ObjectPrototype \<Rightarrow>
          (if key = ''__proto__'' then Some JNull
           else if key \<in> set object_prototype_functions then Some (JsFunction ObjectPrototype key)
           else None)
      | ArrayPrototype \<Rightarrow>
          (if key = ''__proto__'' then Some (JsPrototype ObjectPrototype)
           else if key = ''length'' then Some (JNum 0)
           else if key \<in> set array_prototype_functions then Some (JsFunction ArrayPrototype key)
           else if key \<in> set object_prototype_functions then Some (JsFunction ObjectPrototype key)
           else None))"

definition digit_of :: "char \<Rightarrow> nat option" where
  "digit_of c = map_of (zip ''0123456789'' [0..<10]) c"

definition parse_nat :: "string \<Rightarrow> nat option" where
  "parse_nat s =
     (if s = [] \<or> (\<exists>c\<in>set s. digit_of c = None) then None
      else Some (foldl (\<lambda>n c. 10 * n + the (digit_of c)) 0 s))"

definition array_index :: "string \<Rightarrow> nat option" where
  "array_index s =
     (if length s > 1 \<and> hd s = CHR ''0'' then None
      else case parse_nat s of
             None \<Rightarrow> None
           | Some i \<Rightarrow> if i < 4294967295 then Some i else None)"

definition js_get :: "json \<Rightarrow> string \<Rightarrow> json option" where
  "js_get v key =
     (case v of
        JObj kvs \<Rightarrow>
          (case map_of kvs key of
             Some x \<Rightarrow> Some x
           | None \<Rightarrow> if key = ''__proto__'' then Some (JsPrototype ObjectPrototype)
                     else prototype_get ObjectPrototype key)
      | JArr xs \<Rightarrow>
          (if key = ''length'' then Some (JNum (int (length xs)))
           else case array_index key of
                  Some i \<Rightarrow> if i < length xs then Some (xs ! i) else None
                | None \<Rightarrow> if key = ''__proto__'' then Some (JsPrototype ArrayPrototype)
                          else prototype_get ArrayPrototype key)
      | JStr s \<Rightarrow>
          (if key = ''length'' then Some (JNum (int (length s)))
           else case array_index key of
                  Some i \<Rightarrow> if i < length s then Some (JStr [s ! i]) else None
                | None \<Rightarrow> None)
      | JsPrototype p \<Rightarrow> prototype_get p key
      | _ \<Rightarrow> None)"

text \<open>\<^verbatim>\<open>typeof v === 'object'\<close> (\<^verbatim>\<open>null\<close> included).\<close>

definition typeof_object :: "json \<Rightarrow> bool" where
  "typeof_object v = (case v of JNull \<Rightarrow> True | JArr _ \<Rightarrow> True | JObj _ \<Rightarrow> True
                       | JsPrototype _ \<Rightarrow> True | _ \<Rightarrow> False)"

text \<open>
  \<^verbatim>\<open>util.isDeepStrictEqual\<close> on values that came out of \<^verbatim>\<open>JSON.parse\<close>: objects are
  compared key by key whatever the order of the keys, arrays element by element.
\<close>

lemma size_json_entry:
  "(k, v) \<in> set kvs \<Longrightarrow> size v < Suc (size_list (size_prod (\<lambda>x. 0) size) kvs)"
  by (induction kvs) auto

lemma size_json_zip:
  "(v, w) \<in> set (zip a b) \<Longrightarrow> size v < Suc (size_list size a)"
  by (auto dest!: set_zip_leftD simp: less_Suc_eq_le size_list_estimation')

function isDeepStrictEqual :: "json \<Rightarrow> json \<Rightarrow> bool" where
  "isDeepStrictEqual a b =
     (case (a, b) of
        (JObj kvs, JObj kws) \<Rightarrow>
          length kvs = length kws \<and>
          list_all (\<lambda>(k, v). case map_of kws k of None \<Rightarrow> False | Some w \<Rightarrow> isDeepStrictEqual v w) kvs
      | (JArr xs, JArr ys) \<Rightarrow>
          length xs = length ys \<and> list_all (\<lambda>(v, w). isDeepStrictEqual v w) (zip xs ys)
      | _ \<Rightarrow> a = b)"
  by pat_completeness auto
termination
  by (relation "measure (\<lambda>(a, b). size a)") (auto simp: size_json_entry size_json_zip)

declare isDeepStrictEqual.simps [simp del]

definition isDeepStrictEqual_opt :: "json option \<Rightarrow> json option \<Rightarrow> bool" where
  "isDeepStrictEqual_opt a b =
     (case (a, b) of (None, None) \<Rightarrow> True | (Some x, Some y) \<Rightarrow> isDeepStrictEqual x y | _ \<Rightarrow> False)"

section \<open>Config analyzer (analyzer/config-analyzer.ts)\<close>

function isDeepSubset :: "json option \<Rightarrow> json option \<Rightarrow> bool" where
  "isDeepSubset target subs =
     (case subs of
        None \<Rightarrow> True
      | Some sub \<Rightarrow>
          (case target of
             None \<Rightarrow> False
           | Some JNull \<Rightarrow> False
           | Some tgt \<Rightarrow>
               (case sub of
                  JArr xs \<Rightarrow> isDeepStrictEqual tgt sub
                | JObj kvs \<Rightarrow>
                    if \<not> typeof_object tgt then False
                    else list_all (\<lambda>(key, v). isDeepSubset (js_get tgt key) (Some v)) kvs
                | _ \<Rightarrow> isDeepStrictEqual tgt sub)))"
  by pat_completeness auto
termination
  by (relation "measure (\<lambda>(t, s). case s of None \<Rightarrow> 0 | Some v \<Rightarrow> size v)") (auto simp: size_json_entry)

declare isDeepSubset.simps [simp del]

fun pointer_walk :: "json option \<Rightarrow> string list \<Rightarrow> json option" where
  "pointer_walk current [] = current"
| "pointer_walk current (segment # rest) =
     (case current of
        None \<Rightarrow> None
      | Some v \<Rightarrow> if v = JNull \<or> \<not> typeof_object v then None
                  else pointer_walk (js_get v segment) rest)"

definition getPointerValue :: "json \<Rightarrow> string \<Rightarrow> json option" where
  "getPointerValue target pointer =
     (let segments = decodePointer pointer
      in if length segments = 0 then Some target else pointer_walk (Some target) segments)"

datatype risk = Safe | Moderate | High

datatype conflict_type = Modified | Missing | Incompatible | Permission | Unknown

record conflict =
  cf_type :: conflict_type
  cf_path :: string
  cf_actual :: "string option"
  cf_suggestion :: "string option"

record 'c analysis_result =
  ar_needed :: bool
  ar_current :: "'c option"
  ar_risk :: risk
  ar_notes :: "string list option"
  ar_conflicts :: "conflict list option"

text \<open>\<^verbatim>\<open>value && typeof value === 'object' && !Array.isArray(value)\<close>\<close>

definition is_plain_object :: "json option \<Rightarrow> bool" where
  "is_plain_object v = (case v of Some (JObj _) \<Rightarrow> True | _ \<Rightarrow> False)"

definition evaluateDocument :: "json \<Rightarrow> config_operation \<Rightarrow> json analysis_result" where
  "evaluateDocument document operation =
     (let currentValue = getPointerValue document (co_pointer operation)
      in case co_action operation of
           ConfigUnset \<Rightarrow>
             (let needed = (currentValue \<noteq> None)
              in \<lparr>ar_needed = needed, ar_current = currentValue,
                  ar_risk = (if needed then Moderate else Safe),
                  ar_notes = None, ar_conflicts = None\<rparr>)
         | ConfigSet \<Rightarrow>
             (let equal = isDeepStrictEqual_opt currentValue (co_value operation)
              in \<lparr>ar_needed = \<not> equal, ar_current = currentValue, ar_risk = Safe,
                  ar_notes = None, ar_conflicts = None\<rparr>)
         | ConfigMerge \<Rightarrow>
             (if is_plain_object (co_value operation)
              then (let subs = isDeepSubset currentValue (co_value operation)
                    in \<lparr>ar_needed = \<not> subs, ar_current = currentValue, ar_risk = Safe,
                        ar_notes = (if subs then Some [''Config already matches desired merge payload.'']
                                    else None),
                        ar_conflicts = None\<rparr>)
              else (let equal = isDeepStrictEqual_opt currentValue (co_value operation)
                    in \<lparr>ar_needed = \<not> equal, ar_current = currentValue, ar_risk = Safe,
                        ar_notes = None, ar_conflicts = None\<rparr>)))"

section \<open>Executor: JSON-pointer mutation (executor.ts)\<close>

text \<open>
  What the appliers can throw. The last two are no exceptions of the code: they mark the
  places where the model stops following it. \<open>PrototypeWrite p key\<close> is an assignment to, or
  a \<^verbatim>\<open>delete\<close> of, the property \<open>key\<close> of a prototype object, which the code carries out and
  which changes every object of the process; \<open>OutsideModel\<close> is a JavaScript behaviour the
  model does not follow (a property of an array that is neither an index nor inherited
  being assigned, a property that a string, a number or a boolean inherits being read).
  A run that meets one of the two is not described by the model.
\<close>

datatype exec_error =
    PathEscape string
  | UnsupportedKind string
  | MissingContent string
  | ScriptExists string string
  | JsonSyntaxError
  | JsTypeError
  | IoError io_error
  | OutsideModel
  | PrototypeWrite prototype string

definition truthy :: "json \<Rightarrow> bool" where
  "truthy v = (case v of JNull \<Rightarrow> False | JBool b \<Rightarrow> b | JNum n \<Rightarrow> n \<noteq> 0
               | JStr s \<Rightarrow> s \<noteq> [] | _ \<Rightarrow> True)"

text \<open>\<^verbatim>\<open>parent[key]\<close> as the executor reads it: \<^verbatim>\<open>null[key]\<close> throws.\<close>

definition js_read :: "json \<Rightarrow> string \<Rightarrow> exec_error + json option" where
  "js_read parent key =
     (case parent of
        JNull \<Rightarrow> Inl JsTypeError
      | JObj kvs \<Rightarrow> Inr (js_get parent key)
      | JArr xs \<Rightarrow> Inr (js_get parent key)
      | JsPrototype p \<Rightarrow> Inr (js_get parent key)
      | JsFunction p name \<Rightarrow> Inl OutsideModel
      | _ \<Rightarrow> (case js_get parent key of Some x \<Rightarrow> Inr (Some x) | None \<Rightarrow> Inl OutsideModel))"

text \<open>
  The own keys of an object are listed with the array indices first, in ascending order,
  and the other keys after them in the order of their creation. \<open>obj_put\<close> is the creation
  or the overwriting of an own property; \<open>obj_assign\<close> is the assignment
  \<^verbatim>\<open>parent[key] = value\<close> on an object: it sets the own property, but for \<^verbatim>\<open>__proto__\<close>, which
  when it is not an own property is the accessor of \<^verbatim>\<open>Object.prototype\<close>: the assignment
  then changes the prototype of the object, or nothing, and no own property. A property
  set to \<^verbatim>\<open>undefined\<close> is not printed by \<^verbatim>\<open>JSON.stringify\<close>.
\<close>

fun insert_index :: "nat \<Rightarrow> string \<Rightarrow> json \<Rightarrow> (string \<times> json) list \<Rightarrow> (string \<times> json) list" where
  "insert_index i key v [] = [(key, v)]"
| "insert_index i key v (kx # kvs) =
     (case array_index (fst kx) of
        Some j \<Rightarrow> if j < i then kx # insert_index i key v kvs else (key, v) # kx # kvs
      | None \<Rightarrow> (key, v) # kx # kvs)"

definition obj_put :: "string \<Rightarrow> json \<Rightarrow> (string \<times> json) list \<Rightarrow> (string \<times> json) list" where
  "obj_put key v kvs =
     (if map_of kvs key \<noteq> None then AList.update key v kvs
      else case array_index key of
             Some i \<Rightarrow> insert_index i key v kvs
           | None \<Rightarrow> kvs @ [(key, v)])"

definition obj_assign :: "string \<Rightarrow> json option \<Rightarrow> (string \<times> json) list \<Rightarrow> (string \<times> json) list" where
  "obj_assign key v kvs =
     (if key = ''__proto__'' \<and> map_of kvs key = None then kvs
      else case v of Some x \<Rightarrow> obj_put key x kvs | None \<Rightarrow> AList.delete key kvs)"

text \<open>
  \<^verbatim>\<open>parent[key] = value\<close> in strict mode (the engine is an ES module), as
  \<^verbatim>\<open>JSON.stringify\<close> will see the parent afterwards: an array grown past its end prints
  \<^verbatim>\<open>null\<close> in the holes, an assignment to a property of a primitive throws unless the
  property is \<^verbatim>\<open>__proto__\<close>, whose setter does nothing then.
\<close>

definition set_prop :: "json \<Rightarrow> string \<Rightarrow> json option \<Rightarrow> exec_error + json" where
  "set_prop parent key v =
     (case parent of
        JObj kvs \<Rightarrow> Inr (JObj (obj_assign key v kvs))
      | JArr xs \<Rightarrow>
          (case array_index key of
             None \<Rightarrow> if key = ''__proto__'' then Inr parent else Inl OutsideModel
           | Some i \<Rightarrow>
               (let x = (case v of Some y \<Rightarrow> y | None \<Rightarrow> JNull)
                in if i < length xs then Inr (JArr (xs[i := x]))
                   else Inr (JArr (xs @ replicate (i - length xs) JNull @ [x]))))
      | JsPrototype p \<Rightarrow> Inl (PrototypeWrite p key)
      | JsFunction p name \<Rightarrow> Inl OutsideModel
      | JNull \<Rightarrow> Inl JsTypeError
      | _ \<Rightarrow> if key = ''__proto__'' then Inr parent else Inl JsTypeError)"

text \<open>
  \<^verbatim>\<open>key in parent\<close>, which sees the inherited properties too, and \<^verbatim>\<open>delete parent[key]\<close>,
  which removes an own property only (a deleted array element leaves a hole, the
  \<^verbatim>\<open>length\<close> of an array cannot be deleted).
\<close>

definition has_prop :: "json \<Rightarrow> string \<Rightarrow> exec_error + bool" where
  "has_prop parent key =
     (case parent of
        JObj kvs \<Rightarrow> Inr (js_get parent key \<noteq> None)
      | JArr xs \<Rightarrow> Inr (js_get parent key \<noteq> None)
      | JsPrototype p \<Rightarrow> Inr (js_get parent key \<noteq> None)
      | JsFunction p name \<Rightarrow> Inl OutsideModel
      | _ \<Rightarrow> Inl JsTypeError)"

definition delete_prop :: "json \<Rightarrow> string \<Rightarrow> exec_error + json" where
  "delete_prop parent key =
     (case parent of
        JObj kvs \<Rightarrow> Inr (JObj (AList.delete key kvs))
      | JArr xs \<Rightarrow>
          (case array_index key of
             None \<Rightarrow> if key = ''length'' then Inl JsTypeError else Inr parent
           | Some i \<Rightarrow> Inr (JArr (if i < length xs then xs[i := JNull] else xs)))
      | JsPrototype p \<Rightarrow> Inl (PrototypeWrite p key)
      | JsFunction p name \<Rightarrow> Inl OutsideModel
      | _ \<Rightarrow> Inl JsTypeError)"

text \<open>
  A reference into the document is the path from its root. \<open>value_at\<close> follows a path,
  \<open>put_at\<close> replaces the value at the end of a path of own properties.
\<close>

fun value_at :: "json \<Rightarrow> string list \<Rightarrow> json option" where
  "value_at node [] = Some node"
| "value_at node (segment # rest) =
     (case js_get node segment of None \<Rightarrow> None | Some child \<Rightarrow> value_at child rest)"

definition replace_prop :: "json \<Rightarrow> string \<Rightarrow> json \<Rightarrow> json" where
  "replace_prop node segment child =
     (case node of
        JObj kvs \<Rightarrow> if map_of kvs segment = None then node else JObj (AList.update segment child kvs)
      | JArr xs \<Rightarrow> (case array_index segment of
                     Some i \<Rightarrow> if i < length xs then JArr (xs[i := child]) else node
                   | None \<Rightarrow> node)
      | _ \<Rightarrow> node)"

fun put_at :: "json \<Rightarrow> string list \<Rightarrow> json \<Rightarrow> json" where
  "put_at node [] new = new"
| "put_at node (segment # rest) new =
     (case js_get node segment of
        None \<Rightarrow> node
      | Some child \<Rightarrow> replace_prop node segment (put_at child rest new))"

text \<open>
  The loop of \<^verbatim>\<open>getParent\<close> over all segments but the last. The result is the node after
  the objects the walk created, and whether the walk arrived (\<open>False\<close> is the early
  \<^verbatim>\<open>return { parent: null, key: null }\<close>). A segment that finds a prototype object is
  followed into it, as the code does: the node is then left as it is.
\<close>

fun walk_to_parent :: "bool \<Rightarrow> json \<Rightarrow> string list \<Rightarrow> exec_error + (json \<times> bool)" where
  "walk_to_parent createPath parent [] = Inr (parent, True)"
| "walk_to_parent createPath parent (segment # rest) =
     (case js_read parent segment of
        Inl e \<Rightarrow> Inl e
      | Inr (Some (JObj kvs)) \<Rightarrow>
          (case walk_to_parent createPath (JObj kvs) rest of
             Inl e \<Rightarrow> Inl e
           | Inr (child, arrived) \<Rightarrow> Inr (replace_prop parent segment child, arrived))
      | Inr (Some (JArr xs)) \<Rightarrow>
          (case walk_to_parent createPath (JArr xs) rest of
             Inl e \<Rightarrow> Inl e
           | Inr (child, arrived) \<Rightarrow> Inr (replace_prop parent segment child, arrived))
      | Inr (Some (JsPrototype p)) \<Rightarrow>
          (case walk_to_parent createPath (JsPrototype p) rest of
             Inl e \<Rightarrow> Inl e
           | Inr (child, arrived) \<Rightarrow> Inr (parent, arrived))
      | Inr _ \<Rightarrow>
          (if \<not> createPath then Inr (parent, False)
           else case set_prop parent segment (Some (JObj [])) of
             Inl e \<Rightarrow> Inl e
           | Inr parent1 \<Rightarrow>
               (case walk_to_parent createPath (JObj []) rest of
                  Inl e \<Rightarrow> Inl e
                | Inr (child, arrived) \<Rightarrow> Inr (replace_prop parent1 segment child, arrived))))"

definition getParent ::
  "json \<Rightarrow> string list \<Rightarrow> bool \<Rightarrow> exec_error + (json \<times> (string list \<times> string) option)" where
  "getParent document segments createPath =
     (if length segments = 0 then Inr (document, None)
      else case walk_to_parent createPath document (butlast segments) of
             Inl e \<Rightarrow> Inl e
           | Inr (document1, arrived) \<Rightarrow>
               Inr (document1, if arrived then Some (butlast segments, last segments) else None))"

text \<open>
  \<^verbatim>\<open>{ ...a, ...b }\<close> defines own properties; \<^verbatim>\<open>deepMerge\<close> copies the target and then
  assigns, reading \<^verbatim>\<open>result[key]\<close> before. When the assignment goes to the accessor
  \<^verbatim>\<open>__proto__\<close> with an object, an array or \<^verbatim>\<open>null\<close>, the copy gets another prototype and the
  keys that follow are read through it: the model stops there.
\<close>

definition spread :: "(string \<times> json) list \<Rightarrow> (string \<times> json) list \<Rightarrow> (string \<times> json) list" where
  "spread a b = fold (\<lambda>kv m. obj_put (fst kv) (snd kv) m) b a"

definition changes_prototype :: "string \<Rightarrow> json \<Rightarrow> (string \<times> json) list \<Rightarrow> bool" where
  "changes_prototype key v kvs \<longleftrightarrow>
     key = ''__proto__'' \<and> map_of kvs key = None \<and>
     (case v of JBool b \<Rightarrow> False | JNum n \<Rightarrow> False | JStr s \<Rightarrow> False | _ \<Rightarrow> True)"

function deepMerge ::
  "(string \<times> json) list \<Rightarrow> (string \<times> json) list \<Rightarrow> exec_error + (string \<times> json) list" where
  "deepMerge target source =
     fold (\<lambda>kv acc.
             case acc of
               Inl e \<Rightarrow> Inl e
             | Inr result \<Rightarrow>
                 if changes_prototype (fst kv) (snd kv) result then Inl OutsideModel
                 else case (snd kv, js_get (JObj result) (fst kv)) of
                   (JObj s, Some (JObj t)) \<Rightarrow>
                     (case deepMerge t s of
                        Inl e \<Rightarrow> Inl e
                      | Inr merged \<Rightarrow> Inr (obj_assign (fst kv) (Some (JObj merged)) result))
                 | _ \<Rightarrow> Inr (obj_assign (fst kv) (Some (snd kv)) result))
       source (Inr target)"
  by pat_completeness auto
termination
  by (relation "measure (\<lambda>(t, s). size_list (size_prod (\<lambda>x. 0) size) s)")
     (auto dest!: size_json_entry [of _ _ "_"] simp: less_Suc_eq)

declare deepMerge.simps [simp del]

text \<open>
  \<^verbatim>\<open>JSON.stringify(a) === JSON.stringify(b)\<close>. The printer is injective on JSON values; it
  prints a function as it prints \<^verbatim>\<open>undefined\<close> (not at all), \<^verbatim>\<open>Object.prototype\<close> as \<^verbatim>\<open>{}\<close>
  and \<^verbatim>\<open>Array.prototype\<close> as \<^verbatim>\<open>[]\<close>.
\<close>

definition printed :: "json option \<Rightarrow> json option" where
  "printed v =
     (case v of
        Some (JsFunction p name) \<Rightarrow> None
      | Some (JsPrototype ObjectPrototype) \<Rightarrow> Some (JObj [])
      | Some (JsPrototype ArrayPrototype) \<Rightarrow> Some (JArr [])
      | _ \<Rightarrow> v)"

definition isEqual :: "json option \<Rightarrow> json option \<Rightarrow> bool" where
  "isEqual a b = (printed a = printed b)"

text \<open>
  \<^verbatim>\<open>existing && typeof existing === 'object' && !Array.isArray(existing)\<close>, and the own
  properties that the spread and \<^verbatim>\<open>deepMerge\<close> then copy.
\<close>

definition own_entries :: "json option \<Rightarrow> (string \<times> json) list option" where
  "own_entries v =
     (case v of
        Some (JObj kvs) \<Rightarrow> Some kvs
      | Some (JsPrototype ObjectPrototype) \<Rightarrow> Some []
      | _ \<Rightarrow> None)"

definition applyConfigMutation :: "json \<Rightarrow> config_operation \<Rightarrow> exec_error + (bool \<times> json)" where
  "applyConfigMutation document operation =
     (let segments = decodePointer (co_pointer operation) in
      if co_action operation = ConfigUnset then
        (case getParent document segments False of
           Inl e \<Rightarrow> Inl e
         | Inr (document1, None) \<Rightarrow> Inr (False, document1)
         | Inr (document1, Some (ppath, key)) \<Rightarrow>
             (case value_at document1 ppath of
                None \<Rightarrow> Inr (False, document1)
              | Some parent \<Rightarrow>
                  if \<not> truthy parent \<or> key = [] then Inr (False, document1)
                  else case has_prop parent key of
                    Inl e \<Rightarrow> Inl e
                  | Inr False \<Rightarrow> Inr (False, document1)
                  | Inr True \<Rightarrow>
                      (case delete_prop parent key of
                         Inl e \<Rightarrow> Inl e
                       | Inr parent1 \<Rightarrow> Inr (True, put_at document1 ppath parent1))))
      else
        (case getParent document segments True of
           Inl e \<Rightarrow> Inl e
         | Inr (document1, None) \<Rightarrow> Inr (False, document1)
         | Inr (document1, Some (ppath, key)) \<Rightarrow>
             (case value_at document1 ppath of
                None \<Rightarrow> Inr (False, document1)
              | Some targetParent \<Rightarrow>
                  if \<not> truthy targetParent \<or> key = [] then Inr (False, document1)
                  else
                    (case js_read targetParent key of
                       Inl e \<Rightarrow> Inl e
                     | Inr existing \<Rightarrow>
                    (let assign = (\<lambda>v. case set_prop targetParent key v of
                                     Inl e \<Rightarrow> Inl e
                                   | Inr parent1 \<Rightarrow> Inr (True, put_at document1 ppath parent1))
                     in if co_action operation = ConfigSet then
                          (if isEqual existing (co_value operation) then Inr (False, document1)
                           else assign (co_value operation))
                        else
                          (case (own_entries existing, co_value operation) of
                             (Some e, Some (JObj v)) \<Rightarrow>
                               (case (if co_strategy operation = Some Shallow
                                      then Inr (spread e v) else deepMerge e v) of
                                  Inl e \<Rightarrow> Inl e
                                | Inr merged \<Rightarrow>
                                    if isEqual existing (Some (JObj merged)) then Inr (False, document1)
                                    else assign (Some (JObj merged)))
                           | _ \<Rightarrow>
                               if isEqual existing (co_value operation) then Inr (False, document1)
                               else assign (co_value operation)))))))"

section \<open>Planner: dependency stages (planner.ts)\<close>

record plan_stage =
  st_id :: string
  st_operations :: "operation_with_metadata list"
  st_parallel :: bool

text \<open>
  A JavaScript \<^verbatim>\<open>Map\<close> is an association list in insertion order (\<open>AList.update\<close>
  keeps the place of a key that is already there, as \<^verbatim>\<open>Map.set\<close> does); a \<^verbatim>\<open>Set\<close> is a
  list without repetition in insertion order.
\<close>

definition set_add :: "'a list \<Rightarrow> 'a \<Rightarrow> 'a list" where
  "set_add s x = (if x \<in> set s then s else s @ [x])"

text \<open>\<^verbatim>\<open>new Map(operations.map((op) => [op.metadata.id, op]))\<close>\<close>

definition idToOperation :: "operation_with_metadata list \<Rightarrow> (string \<times> operation_with_metadata) list" where
  "idToOperation operations = fold (\<lambda>op m. AList.update (op_id op) op m) operations []"

definition missing_dependency_warning :: "string \<Rightarrow> string \<Rightarrow> string" where
  "missing_dependency_warning x y =
     ''Operation '' @ x @ '' depends on missing operation '' @ y @ ''. It will run anyway.''"

record dep_graph =
  dg_warnings :: "string list"
  dg_indegree :: "(string \<times> int) list"
  dg_graph :: "(string \<times> string list) list"

text \<open>\<^verbatim>\<open>indegree.get(id) ?? 0\<close> and \<^verbatim>\<open>graph.get(id) ?? []\<close>\<close>

definition indegree_of :: "(string \<times> int) list \<Rightarrow> string \<Rightarrow> int" where
  "indegree_of ind k = (case map_of ind k of None \<Rightarrow> 0 | Some d \<Rightarrow> d)"

definition neighbours :: "(string \<times> string list) list \<Rightarrow> string \<Rightarrow> string list" where
  "neighbours g k = (case map_of g k of None \<Rightarrow> [] | Some s \<Rightarrow> s)"

text \<open>The body of the loop over one operation's dependencies.\<close>

definition add_dependency ::
  "(string \<times> operation_with_metadata) list \<Rightarrow> string \<Rightarrow> string \<Rightarrow> dep_graph \<Rightarrow> dep_graph" where
  "add_dependency idToOp x dep st =
     (if map_of idToOp dep = None
      then st\<lparr>dg_warnings := dg_warnings st @ [missing_dependency_warning x dep]\<rparr>
      else st\<lparr>dg_indegree := AList.update x (indegree_of (dg_indegree st) x + 1) (dg_indegree st),
              dg_graph := AList.update dep (set_add (neighbours (dg_graph st) dep) x) (dg_graph st)\<rparr>)"

definition op_dependencies :: "operation_with_metadata \<Rightarrow> string list" where
  "op_dependencies op = (case md_dependencies (owm_metadata op) of None \<Rightarrow> [] | Some ds \<Rightarrow> ds)"

definition add_dependencies ::
  "(string \<times> operation_with_metadata) list \<Rightarrow> operation_with_metadata \<Rightarrow> dep_graph \<Rightarrow> dep_graph" where
  "add_dependencies idToOp op st = fold (add_dependency idToOp (op_id op)) (op_dependencies op) st"

definition collect_dependencies ::
  "operation_with_metadata list \<Rightarrow> string list \<Rightarrow> dep_graph" where
  "collect_dependencies operations warnings =
     fold (add_dependencies (idToOperation operations)) operations
       \<lparr>dg_warnings = warnings,
        dg_indegree = fold (\<lambda>op m. AList.update (op_id op) 0 m) operations [],
        dg_graph = []\<rparr>"

text \<open>
  The state of the breadth-first loop: the queue, the in-degrees, the processed set and
  the operations of the stage being filled.
\<close>

type_synonym kahn_state =
  "string list \<times> (string \<times> int) list \<times> string list \<times> operation_with_metadata list"

definition relax :: "string \<Rightarrow> string list \<times> (string \<times> int) list \<Rightarrow> string list \<times> (string \<times> int) list" where
  "relax neighbour qi =
     (let next = indegree_of (snd qi) neighbour - 1;
          ind = AList.update neighbour next (snd qi)
      in (if next = 0 then fst qi @ [neighbour] else fst qi, ind))"

text \<open>
  \<open>drain n\<close> is the \<^verbatim>\<open>for\<close> loop of \<open>n\<close> iterations. \<^verbatim>\<open>queue.shift()\<close> of an empty queue is
  \<^verbatim>\<open>undefined\<close>, which no map holds: the iteration is skipped.
\<close>

fun drain ::
  "(string \<times> operation_with_metadata) list \<Rightarrow> (string \<times> string list) list \<Rightarrow> nat \<Rightarrow> kahn_state \<Rightarrow> kahn_state" where
  "drain idToOp g 0 s = s"
| "drain idToOp g (Suc n) ([], ind, processed, stageOps) = drain idToOp g n ([], ind, processed, stageOps)"
| "drain idToOp g (Suc n) (x # queue, ind, processed, stageOps) =
     (if x \<in> set processed then drain idToOp g n (queue, ind, processed, stageOps)
      else case map_of idToOp x of
        None \<Rightarrow> drain idToOp g n (queue, ind, processed, stageOps)
      | Some op \<Rightarrow>
          (let qi = fold relax (neighbours g x) (queue, ind)
           in drain idToOp g n (fst qi, snd qi, set_add processed x, stageOps @ [op])))"

definition stage_name :: "nat \<Rightarrow> string" where
  "stage_name n = ''stage-'' @ show_nat n"

definition push_stage :: "plan_stage list \<Rightarrow> operation_with_metadata list \<Rightarrow> bool \<Rightarrow> plan_stage list" where
  "push_stage stages ops par =
     stages @ [\<lparr>st_id = stage_name (length stages + 1), st_operations = ops, st_parallel = par\<rparr>]"

text \<open>The executor walks the stages in order and, inside a stage, the operations in order.\<close>

definition plan_operations :: "plan_stage list \<Rightarrow> operation_with_metadata list" where
  "plan_operations stages = concat (map st_operations stages)"

text \<open>The loop over rounds ends: each round either processes an operation nobody processed
  before, or empties the queue.\<close>

lemma drain_mono:
  "drain I g n s = s' \<Longrightarrow> set (fst (snd (snd s))) \<subseteq> set (fst (snd (snd s')))"
proof (induction I g n s arbitrary: s' rule: drain.induct)
  case (3 idToOp g n x queue ind processed stageOps)
  then show ?case
    by (auto simp: Let_def set_add_def split: if_splits option.splits)
qed auto

lemma drain_progress:
  "drain I g n (q, ind, proc, sops) = (q', ind', proc', sops') \<Longrightarrow>
     (proc' = proc \<and> q' = drop n q) \<or>
     card (fst ` set I - set proc') < card (fst ` set I - set proc)"
proof (induction I g n "(q, ind, proc, sops)" arbitrary: q ind proc sops rule: drain.induct)
  case (1 idToOp g)
  then show ?case by simp
next
  case (2 idToOp g n ind processed stageOps)
  then show ?case by simp
next
  case (3 idToOp g n x queue ind processed stageOps)
  show ?case
  proof (cases "x \<in> set processed")
    case True
    with 3 show ?thesis by simp
  next
    case False
    show ?thesis
    proof (cases "map_of idToOp x")
      case None
      with False 3 show ?thesis by simp
    next
      case (Some op)
      define qi where "qi = fold relax (neighbours g x) (queue, ind)"
      have d: "drain idToOp g n (fst qi, snd qi, set_add processed x, stageOps @ [op]) = (q', ind', proc', sops')"
        using 3(4) False Some by (simp add: qi_def Let_def)
      have x_in: "x \<in> fst ` set idToOp"
        using map_of_SomeD [OF Some] by force
      have fin: "finite (fst ` set idToOp - set processed)" by simp
      have lt: "card (fst ` set idToOp - set (set_add processed x)) < card (fst ` set idToOp - set processed)"
        by (rule psubset_card_mono [OF fin]) (use x_in False in \<open>auto simp: set_add_def\<close>)
      from drain_mono [OF d] have sub: "set (set_add processed x) \<subseteq> set proc'" by simp
      have le: "card (fst ` set idToOp - set proc') \<le> card (fst ` set idToOp - set (set_add processed x))"
        by (rule card_mono) (use sub in auto)
      from lt le show ?thesis by simp
    qed
  qed
qed

function rounds ::
  "(string \<times> operation_with_metadata) list \<Rightarrow> (string \<times> string list) list \<Rightarrow>
   string list \<times> (string \<times> int) list \<times> string list \<times> plan_stage list \<Rightarrow>
   string list \<times> plan_stage list" where
  "rounds idToOp g (queue, ind, processed, stages) =
     (if queue = [] then (processed, stages)
      else (case drain idToOp g (length queue) (queue, ind, processed, []) of
              (queue', ind', processed', stageOps) \<Rightarrow>
                rounds idToOp g (queue', ind', processed',
                  if stageOps \<noteq> [] then push_stage stages stageOps (length stageOps > 1) else stages)))"
  by pat_completeness auto
termination
proof (relation "measures [\<lambda>(I, g, q, ind, proc, st). card (fst ` set I - set proc), \<lambda>(I, g, q, ind, proc, st). length q]", goal_cases)
  case 1
  then show ?case by simp
next
  case (2 idToOp g queue ind processed stages x1 x2 x3 x4 x5 x6)
  then have "drain idToOp g (length queue) (queue, ind, processed, []) = (x1, x3, x5, x6)"
    by simp
  from drain_progress [OF this] 2(1) show ?case
    by auto
qed

declare rounds.simps [simp del]

definition cycle_warning :: string where
  "cycle_warning =
     ''Detected dependency cycle. Remaining operations will execute sequentially in declared order.''"

definition append_remaining ::
  "operation_with_metadata list \<Rightarrow> string list \<times> plan_stage list \<Rightarrow> string list \<times> plan_stage list" where
  "append_remaining operations ps =
     fold (\<lambda>op ps. if op_id op \<notin> set (fst ps)
                     then (set_add (fst ps) (op_id op), push_stage (snd ps) [op] False)
                     else ps)
       operations ps"

text \<open>\<open>buildStages\<close> returns the stages and the warnings array after its pushes.\<close>

definition buildStages ::
  "operation_with_metadata list \<Rightarrow> string list \<Rightarrow> plan_stage list \<times> string list" where
  "buildStages operations warnings =
     (let idToOp = idToOperation operations;
          dg = collect_dependencies operations warnings;
          queue = map fst (filter (\<lambda>kv. snd kv = 0) (dg_indegree dg));
          ps = rounds idToOp (dg_graph dg) (queue, dg_indegree dg, [], []);
          cyclic = (length (fst ps) \<noteq> length operations);
          warnings' = (if cyclic then dg_warnings dg @ [cycle_warning] else dg_warnings dg);
          stages = (if cyclic then snd (append_remaining operations ps) else snd ps)
      in (if stages = []
          then [\<lparr>st_id = ''stage-1'', st_operations = operations,
                  st_parallel = (length operations > 1)\<rparr>]
          else stages,
          warnings'))"

text \<open>\<^verbatim>\<open>createPlanner().plan\<close>: of the plan only the stages and the warnings are modelled
  (\<^verbatim>\<open>warnings.length > 0 ? warnings : undefined\<close>).\<close>

definition planner_stages :: "operation_with_metadata list \<Rightarrow> plan_stage list" where
  "planner_stages operations = fst (buildStages operations [])"

definition planner_warnings :: "operation_with_metadata list \<Rightarrow> string list option" where
  "planner_warnings operations =
     (let warnings = snd (buildStages operations [])
      in if length warnings > 0 then Some warnings else None)"

section \<open>Paths (node:path)\<close>

text \<open>
  \<^verbatim>\<open>path.resolve(base, p)\<close> for a resolved \<open>base\<close>: an absolute \<open>p\<close> starts again from the
  root; empty components and \<^verbatim>\<open>.\<close> are dropped, \<^verbatim>\<open>..\<close> removes the last component (the
  parent of the root is the root).
\<close>

fun normalize_onto :: "path \<Rightarrow> string list \<Rightarrow> path" where
  "normalize_onto acc [] = acc"
| "normalize_onto acc (seg # segs) =
     (if seg = [] \<or> seg = ''.'' then normalize_onto acc segs
      else if seg = ''..'' then normalize_onto (butlast acc) segs
      else normalize_onto (acc @ [seg]) segs)"

definition path_isAbsolute :: "string \<Rightarrow> bool" where
  "path_isAbsolute p = (p \<noteq> [] \<and> hd p = CHR ''/'')"

definition path_resolve :: "path \<Rightarrow> string \<Rightarrow> path" where
  "path_resolve base p =
     normalize_onto (if path_isAbsolute p then [] else base) (split_on CHR ''/'' p)"

fun join_with :: "char \<Rightarrow> string list \<Rightarrow> string" where
  "join_with c [] = []"
| "join_with c [s] = s"
| "join_with c (s # t # ss) = s @ c # join_with c (t # ss)"

definition path_relative :: "path \<Rightarrow> path \<Rightarrow> string" where
  "path_relative from to =
     (let n = length (longest_common_prefix from to)
      in join_with CHR ''/'' (replicate (length from - n) ''..'' @ drop n to))"

definition path_dirname :: "path \<Rightarrow> path" where
  "path_dirname p = butlast p"

text \<open>\<^verbatim>\<open>value.replace(/[^a-zA-Z0-9._-]/g, '_')\<close>\<close>

definition filename_char :: "char \<Rightarrow> bool" where
  "filename_char c \<longleftrightarrow>
     c \<in> set ''abcdefghijklmnopqrstuvwxyzABCDEFGHIJKLMNOPQRSTUVWXYZ0123456789._-''"

definition sanitizeForFilename :: "string \<Rightarrow> string" where
  "sanitizeForFilename v = map (\<lambda>c. if filename_char c then c else CHR ''_'') v"

section \<open>File-system calls (node:fs)\<close>

text \<open>
  \<^verbatim>\<open>fs.access\<close> succeeds for a file and for a directory. A new file gets the permission
  bits \<^verbatim>\<open>0o644\<close>; writing over a file keeps its bits; \<^verbatim>\<open>copyFile\<close> copies bytes and bits;
  \<^verbatim>\<open>mkdir\<close> with \<^verbatim>\<open>recursive\<close> records the directory and all its ancestors.
\<close>

definition fs_exists :: "world \<Rightarrow> path \<Rightarrow> bool" where
  "fs_exists w p \<longleftrightarrow> files w p \<noteq> None \<or> p \<in> dirs w"

definition fs_writeFile :: "world \<Rightarrow> path \<Rightarrow> bytes \<Rightarrow> world" where
  "fs_writeFile w p b =
     w\<lparr>files := (files w)(p \<mapsto>
          \<lparr>f_bytes = b, f_mode = (case files w p of Some f \<Rightarrow> f_mode f | None \<Rightarrow> 420)\<rparr>)\<rparr>"

definition fs_rm_force :: "world \<Rightarrow> path \<Rightarrow> world" where
  "fs_rm_force w p = w\<lparr>files := (files w)(p := None)\<rparr>"

definition fs_copyFile :: "world \<Rightarrow> path \<Rightarrow> path \<Rightarrow> io_error + world" where
  "fs_copyFile w src dst =
     (case files w src of
        Some f \<Rightarrow> Inr (w\<lparr>files := (files w)(dst \<mapsto> f)\<rparr>)
      | None \<Rightarrow> if src \<in> dirs w then Inl EISDIR else Inl ENOENT)"

definition fs_mkdir_p :: "world \<Rightarrow> path \<Rightarrow> world" where
  "fs_mkdir_p w p = w\<lparr>dirs := dirs w \<union> set (prefixes p)\<rparr>"

definition fs_chmod :: "env \<Rightarrow> world \<Rightarrow> path \<Rightarrow> nat \<Rightarrow> io_error + world" where
  "fs_chmod E w p m =
     (if m \<ge> 4294967296 then Inl ERR_OUT_OF_RANGE
      else case files w p of
        Some f \<Rightarrow> if chmod_permitted E p then Inr (w\<lparr>files := (files w)(p \<mapsto> f\<lparr>f_mode := m\<rparr>)\<rparr>)
                  else Inl EPERM
      | None \<Rightarrow> if p \<in> dirs w then (if chmod_permitted E p then Inr w else Inl EPERM)
                else Inl ENOENT)"

text \<open>\<^verbatim>\<open>Date.now()\<close>: the next reading of the clock.\<close>

definition clock_read :: "env \<Rightarrow> world \<Rightarrow> nat \<times> world" where
  "clock_read E w = (date_now E (ticks w), w\<lparr>ticks := Suc (ticks w)\<rparr>)"

section \<open>Change journal: snapshots (journal.ts)\<close>

record file_capture =
  cap_exists :: bool
  cap_content :: "string option"
  cap_checksum :: "string option"



text \<open>\<^verbatim>\<open>encoding ?? 'utf8'\<close>\<close>

definition encoding_or_utf8 :: "string option \<Rightarrow> string" where
  "encoding_or_utf8 enc = (case enc of None \<Rightarrow> ''utf8'' | Some e \<Rightarrow> e)"

definition readFileIfExists :: "env \<Rightarrow> world \<Rightarrow> path \<Rightarrow> nat \<Rightarrow> string option \<Rightarrow> file_capture" where
  "readFileIfExists E w target maxBytes encoding =
     (case fs_readFile w target of
        Inr buffer \<Rightarrow>
          (let checksum = sha256_hex E buffer in
           if length buffer > maxBytes
           then \<lparr>cap_exists = True,
                 cap_content = Some (''<truncated '' @ show_nat (length buffer) @ '' bytes>''),
                 cap_checksum = Some checksum\<rparr>
           else \<lparr>cap_exists = True,
                 cap_content = Some (buffer_toString E (encoding_or_utf8 encoding) buffer),
                 cap_checksum = Some checksum\<rparr>)
      | Inl ENOENT \<Rightarrow> \<lparr>cap_exists = False, cap_content = None, cap_checksum = None\<rparr>
      | Inl e \<Rightarrow> \<lparr>cap_exists = False,
                   cap_content = Some (''<error: '' @ io_message e @ ''>''),
                   cap_checksum = None\<rparr>)"

section \<open>Change journal: the journal of createChangeJournal (journal.ts)\<close>

record journal_state =
  jn_workspaceRoot :: path
  jn_maxBytes :: nat
  jn_entries :: "journal_entry list"
  jn_entryIndex :: "(string \<times> nat) list"
  jn_backups :: "path list"
  jn_logs :: "path list"
  jn_logPath :: "path option"


definition snapshot_of :: "file_capture \<Rightarrow> operation_metadata \<Rightarrow> operation_snapshot" where
  "snapshot_of result md =
     \<lparr>snap_exists = cap_exists result, snap_content = cap_content result,
      snap_checksum = cap_checksum result, snap_metadata = Some md\<rparr>"

definition captureSnapshot ::
  "env \<Rightarrow> world \<Rightarrow> path \<Rightarrow> operation_with_metadata \<Rightarrow> nat \<Rightarrow> operation_snapshot" where
  "captureSnapshot E w workspaceRoot operation maxBytes =
     (case owm_operation operation of
        FileOp fo \<Rightarrow>
          snapshot_of (readFileIfExists E w (path_resolve workspaceRoot (fo_path fo)) maxBytes
                         (fo_encoding fo)) (owm_metadata operation)
      | ConfigOp co \<Rightarrow>
          snapshot_of (readFileIfExists E w (path_resolve workspaceRoot (co_path co)) maxBytes
                         (Some ''utf8'')) (owm_metadata operation)
      | ScriptOp so \<Rightarrow>
          snapshot_of (readFileIfExists E w (path_resolve workspaceRoot (so_file so)) maxBytes
                         (Some ''utf8'')) (owm_metadata operation)
      | _ \<Rightarrow> \<lparr>snap_exists = False, snap_content = None, snap_checksum = None,
                snap_metadata = Some (owm_metadata operation)\<rparr>)"

definition journal_beforeOperation ::
  "env \<Rightarrow> operation_with_metadata \<Rightarrow> world \<times> journal_state \<Rightarrow> world \<times> journal_state" where
  "journal_beforeOperation E operation wj =
     (let now_w = clock_read E (fst wj);
          j = snd wj;
          entry = \<lparr>je_timestamp = fst now_w,
                   je_operation = operation,
                   je_before = captureSnapshot E (snd now_w) (jn_workspaceRoot j) operation (jn_maxBytes j),
                   je_after = None,
                   je_backupPath = None\<rparr>;
          entries = jn_entries j @ [entry]
      in (snd now_w,
          j\<lparr>jn_entries := entries,
            jn_entryIndex := AList.update (op_id operation) (length entries - 1) (jn_entryIndex j)\<rparr>))"

definition journal_afterOperation ::
  "env \<Rightarrow> operation_with_metadata \<Rightarrow> path option \<Rightarrow> world \<Rightarrow> journal_state \<Rightarrow> journal_state" where
  "journal_afterOperation E operation backupPath w j =
     (case map_of (jn_entryIndex j) (op_id operation) of
        None \<Rightarrow> j
      | Some index \<Rightarrow>
          if index \<ge> length (jn_entries j) then j
          else
            (let entry = (jn_entries j ! index)
                   \<lparr>je_after := Some (captureSnapshot E w (jn_workspaceRoot j) operation (jn_maxBytes j))\<rparr>
             in case backupPath of
                  None \<Rightarrow> j\<lparr>jn_entries := (jn_entries j)[index := entry]\<rparr>
                | Some b \<Rightarrow>
                    j\<lparr>jn_entries := (jn_entries j)[index := entry\<lparr>je_backupPath := Some b\<rparr>],
                      jn_backups := jn_backups j @ [b]\<rparr>))"

definition journal_setLogPath :: "path \<Rightarrow> journal_state \<Rightarrow> journal_state" where
  "journal_setLogPath next j = j\<lparr>jn_logPath := Some next, jn_logs := [next]\<rparr>"

section \<open>Executor: state and appliers (executor.ts)\<close>

record exec_context =
  ctx_workspaceRoot :: path
  ctx_backupDir :: path
  ctx_autoConfirm :: bool

record applied_mutation =
  am_targetPath :: path
  am_backupPath :: "path option"
  am_existedBefore :: bool

record apply_result =
  res_changed :: bool
  res_backupPath :: "path option"

text \<open>
  What a run changes: the file system and the clock, the mutation log, the registry of
  backups, and the journal when the caller gave one.
\<close>

record run_state =
  rs_world :: world
  rs_mutations :: "applied_mutation list"
  rs_backupRegistry :: "path list"
  rs_journal :: "journal_state option"

text \<open>
  An asynchronous function that may throw is a function from the state to a result or
  an error, and the state it leaves; \<open>exec_bind\<close> is \<^verbatim>\<open>await\<close> followed by the rest.
\<close>

type_synonym 'a exec = "run_state \<Rightarrow> (exec_error + 'a) \<times> run_state"

definition exec_ret :: "'a \<Rightarrow> 'a exec" where
  "exec_ret x = (\<lambda>s. (Inr x, s))"

definition exec_throw :: "exec_error \<Rightarrow> 'a exec" where
  "exec_throw e = (\<lambda>s. (Inl e, s))"

definition exec_bind :: "'a exec \<Rightarrow> ('a \<Rightarrow> 'b exec) \<Rightarrow> 'b exec" where
  "exec_bind m f = (\<lambda>s. case m s of (Inl e, s1) \<Rightarrow> (Inl e, s1) | (Inr x, s1) \<Rightarrow> f x s1)"

definition exec_world :: "(world \<Rightarrow> world) \<Rightarrow> unit exec" where
  "exec_world f = (\<lambda>s. (Inr (), s\<lparr>rs_world := f (rs_world s)\<rparr>))"

definition exec_io :: "(world \<Rightarrow> io_error + world) \<Rightarrow> unit exec" where
  "exec_io f = (\<lambda>s. case f (rs_world s) of
                       Inl e \<Rightarrow> (Inl (IoError e), s)
                     | Inr w \<Rightarrow> (Inr (), s\<lparr>rs_world := w\<rparr>))"

definition pathExists :: "path \<Rightarrow> bool exec" where
  "pathExists targetPath = (\<lambda>s. (Inr (fs_exists (rs_world s) targetPath), s))"

definition readFile :: "path \<Rightarrow> bytes exec" where
  "readFile p = (\<lambda>s. case fs_readFile (rs_world s) p of
                        Inl e \<Rightarrow> (Inl (IoError e), s)
                      | Inr b \<Rightarrow> (Inr b, s))"

definition ensureParentDir :: "path \<Rightarrow> unit exec" where
  "ensureParentDir targetPath = exec_world (\<lambda>w. fs_mkdir_p w (path_dirname targetPath))"

definition resolveWorkspacePath :: "path \<Rightarrow> string \<Rightarrow> exec_error + path" where
  "resolveWorkspacePath workspaceRoot filePath =
     (let resolved = path_resolve workspaceRoot filePath
      in if \<not> prefix workspaceRoot resolved then Inl (PathEscape filePath) else Inr resolved)"

definition createBackupIfNeeded :: "env \<Rightarrow> exec_context \<Rightarrow> path \<Rightarrow> string \<Rightarrow> path option exec" where
  "createBackupIfNeeded E ctx targetPath opId =
     exec_bind (pathExists targetPath) (\<lambda>exists.
       if \<not> exists then exec_ret None
       else
         exec_bind (exec_world (\<lambda>w. fs_mkdir_p w (ctx_backupDir ctx))) (\<lambda>_.
         (\<lambda>s. let now_w = clock_read E (rs_world s);
                  fileName = show_nat (fst now_w) @ ''-'' @ sanitizeForFilename opId @ ''-'' @
                             sanitizeForFilename (path_relative (ctx_workspaceRoot ctx) targetPath);
                  backupPath = ctx_backupDir ctx @ [fileName @ ''.bak'']
              in exec_bind (ensureParentDir backupPath) (\<lambda>_.
                 exec_bind (exec_io (\<lambda>w. fs_copyFile w targetPath backupPath)) (\<lambda>_.
                 (\<lambda>s2. (Inr (Some backupPath),
                         s2\<lparr>rs_backupRegistry := rs_backupRegistry s2 @ [backupPath]\<rparr>))))
                 (s\<lparr>rs_world := snd now_w\<rparr>))))"

definition recordMutation :: "path \<Rightarrow> path option \<Rightarrow> bool \<Rightarrow> unit exec" where
  "recordMutation targetPath backupPath created =
     (\<lambda>s. (Inr (), s\<lparr>rs_mutations := rs_mutations s @
              [\<lparr>am_targetPath = targetPath, am_backupPath = backupPath,
                am_existedBefore = (\<not> created)\<rparr>]\<rparr>))"

text \<open>Content of a file operation: inline, the base-64 annotation, or the rendered template.\<close>

definition interpolateTemplate :: "env \<Rightarrow> string \<Rightarrow> (string \<times> string) list \<Rightarrow> string" where
  "interpolateTemplate E content variables =
     fold (\<lambda>kv acc. regex_replace_var E (fst kv) (snd kv) acc) variables content"

definition renderTemplate :: "env \<Rightarrow> template_spec \<Rightarrow> path \<Rightarrow> bytes exec" where
  "renderTemplate E template workspaceRoot =
     exec_bind (readFile (path_resolve workspaceRoot (tpl_source template))) (\<lambda>raw.
       let baseContent = buffer_toString E ''utf8'' raw;
           rendered = (case tpl_variables template of
                         Some vars \<Rightarrow> if length vars > 0 then interpolateTemplate E baseContent vars
                                       else baseContent
                       | None \<Rightarrow> baseContent)
       in exec_ret (buffer_from E ''utf8'' rendered))"

definition resolveFileContent ::
  "env \<Rightarrow> file_operation \<Rightarrow> exec_context \<Rightarrow> operation_metadata option \<Rightarrow> bytes exec" where
  "resolveFileContent E operation ctx metadata =
     (case fo_content operation of
        Some content \<Rightarrow> exec_ret (buffer_from E (encoding_or_utf8 (fo_encoding operation)) content)
      | None \<Rightarrow>
          (case (case metadata of Some md \<Rightarrow> md_rawContentBase64 md | None \<Rightarrow> None) of
             Some base64 \<Rightarrow> exec_ret (base64_decode E base64)
           | None \<Rightarrow>
               (case fo_template operation of
                  Some template \<Rightarrow> renderTemplate E template (ctx_workspaceRoot ctx)
                | None \<Rightarrow> exec_throw (MissingContent (fo_path operation)))))"

definition applyFileOperation ::
  "env \<Rightarrow> file_operation \<Rightarrow> operation_metadata \<Rightarrow> exec_context \<Rightarrow> apply_result exec" where
  "applyFileOperation E operation metadata ctx =
     (case resolveWorkspacePath (ctx_workspaceRoot ctx) (fo_path operation) of
        Inl e \<Rightarrow> exec_throw e
      | Inr targetPath \<Rightarrow>
          exec_bind (pathExists targetPath) (\<lambda>exists.
            if fo_action operation = FileDelete then
              (if \<not> exists then exec_ret \<lparr>res_changed = False, res_backupPath = None\<rparr>
               else
                 exec_bind (createBackupIfNeeded E ctx targetPath (md_id metadata)) (\<lambda>backupPath.
                 exec_bind (exec_world (\<lambda>w. fs_rm_force w targetPath)) (\<lambda>_.
                 exec_bind (recordMutation targetPath backupPath True) (\<lambda>_.
                 exec_ret \<lparr>res_changed = True, res_backupPath = backupPath\<rparr>))))
            else
              exec_bind (resolveFileContent E operation ctx (Some metadata)) (\<lambda>nextContent.
              exec_bind (if exists
                         then exec_bind (readFile targetPath) (\<lambda>current. exec_ret (current = nextContent))
                         else exec_ret False) (\<lambda>equal.
                if equal then exec_ret \<lparr>res_changed = False, res_backupPath = None\<rparr>
                else
                  exec_bind (if exists then createBackupIfNeeded E ctx targetPath (md_id metadata)
                             else exec_ret None) (\<lambda>backupPath.
                  exec_bind (ensureParentDir targetPath) (\<lambda>_.
                  exec_bind (exec_world (\<lambda>w. fs_writeFile w targetPath nextContent)) (\<lambda>_.
                  exec_bind (case fo_mode operation of
                               Some m \<Rightarrow> exec_io (\<lambda>w. fs_chmod E w targetPath m)
                             | None \<Rightarrow> exec_ret ()) (\<lambda>_.
                  exec_bind (recordMutation targetPath backupPath (\<not> exists)) (\<lambda>_.
                  exec_ret \<lparr>res_changed = True, res_backupPath = backupPath\<rparr>)))))))))"

text \<open>\<^verbatim>\<open>raw.trim()\<close> is empty: the text holds white space only (the ASCII white space).\<close>

definition js_blank :: "string \<Rightarrow> bool" where
  "js_blank raw = list_all (\<lambda>c. c \<in> set [CHR '' '', CHR 0x09, CHR 0x0A, CHR 0x0B, CHR 0x0C, CHR 0x0D]) raw"

definition json_file_text :: "env \<Rightarrow> json \<Rightarrow> bytes" where
  "json_file_text E document = buffer_from E ''utf8'' (json_pretty E document @ [CHR 0x0A])"

definition unchanged :: apply_result where
  "unchanged = \<lparr>res_changed = False, res_backupPath = None\<rparr>"

text \<open>The end of the three appliers that write a JSON document.\<close>

definition write_json_target ::
  "env \<Rightarrow> exec_context \<Rightarrow> path \<Rightarrow> bool \<Rightarrow> string \<Rightarrow> json \<Rightarrow> apply_result exec" where
  "write_json_target E ctx targetPath exists opId document =
     exec_bind (if exists then createBackupIfNeeded E ctx targetPath opId else exec_ret None) (\<lambda>backupPath.
     exec_bind (ensureParentDir targetPath) (\<lambda>_.
     exec_bind (exec_world (\<lambda>w. fs_writeFile w targetPath (json_file_text E document))) (\<lambda>_.
     exec_bind (recordMutation targetPath backupPath (\<not> exists)) (\<lambda>_.
     exec_ret \<lparr>res_changed = True, res_backupPath = backupPath\<rparr>))))"

definition applyConfigOperation ::
  "env \<Rightarrow> config_operation \<Rightarrow> string \<Rightarrow> exec_context \<Rightarrow> apply_result exec" where
  "applyConfigOperation E operation opId ctx =
     (case resolveWorkspacePath (ctx_workspaceRoot ctx) (co_path operation) of
        Inl e \<Rightarrow> exec_throw e
      | Inr targetPath \<Rightarrow>
          exec_bind (pathExists targetPath) (\<lambda>exists.
          exec_bind (if exists
                     then exec_bind (readFile targetPath) (\<lambda>buffer.
                            let raw = buffer_toString E ''utf8'' buffer
                            in if js_blank raw then exec_ret (JObj [])
                               else (case json_parse E raw of
                                       None \<Rightarrow> exec_throw JsonSyntaxError
                                     | Some d \<Rightarrow> exec_ret d))
                     else exec_ret (JObj [])) (\<lambda>document.
            case applyConfigMutation document operation of
              Inl e \<Rightarrow> exec_throw e
            | Inr updated \<Rightarrow>
                if \<not> fst updated then exec_ret unchanged
                else write_json_target E ctx targetPath exists opId (snd updated))))"

text \<open>
  The script applier once the manifest is parsed: \<^verbatim>\<open>pkg.scripts = pkg.scripts ?? {}\<close>, the
  current command, and what the action makes of it.
\<close>

definition script_body ::
  "env \<Rightarrow> exec_context \<Rightarrow> path \<Rightarrow> bool \<Rightarrow> string \<Rightarrow> script_operation \<Rightarrow> json \<Rightarrow> apply_result exec" where
  "script_body E ctx targetPath exists opId operation pkg =
     (let scripts = (case js_get pkg ''scripts'' of
                       None \<Rightarrow> JObj [] | Some JNull \<Rightarrow> JObj [] | Some v \<Rightarrow> v);
          finish = (\<lambda>scripts1.
             case set_prop pkg ''scripts'' (Some scripts1) of
               Inl e \<Rightarrow> exec_throw e
             | Inr pkg1 \<Rightarrow> write_json_target E ctx targetPath exists opId pkg1)
      in case set_prop pkg ''scripts'' (Some scripts) of
           Inl e \<Rightarrow> exec_throw e
         | Inr _ \<Rightarrow>
             (case js_read scripts (so_name operation) of
                Inl e \<Rightarrow> exec_throw e
              | Inr current \<Rightarrow>
                  if so_action operation = ScriptDelete then
                    (if current = None then exec_ret unchanged
                     else case delete_prop scripts (so_name operation) of
                            Inl e \<Rightarrow> exec_throw e
                          | Inr scripts1 \<Rightarrow> finish scripts1)
                  else
                    (let nextCommand = (case so_command operation of None \<Rightarrow> [] | Some c \<Rightarrow> c);
                         resolution = (case so_conflictResolution operation of
                                         None \<Rightarrow> Prompt | Some r \<Rightarrow> r)
                     in if current \<noteq> None \<and> current \<noteq> Some (JStr nextCommand)
                           \<and> resolution = Keep
                        then exec_ret unchanged
                        else if current \<noteq> None \<and> current \<noteq> Some (JStr nextCommand)
                           \<and> resolution = Prompt \<and> \<not> ctx_autoConfirm ctx
                        then exec_throw (ScriptExists (so_name operation) (so_file operation))
                        else case set_prop scripts (so_name operation) (Some (JStr nextCommand)) of
                               Inl e \<Rightarrow> exec_throw e
                             | Inr scripts1 \<Rightarrow> finish scripts1)))"

definition applyScriptOperation ::
  "env \<Rightarrow> script_operation \<Rightarrow> string \<Rightarrow> exec_context \<Rightarrow> apply_result exec" where
  "applyScriptOperation E operation opId ctx =
     (case resolveWorkspacePath (ctx_workspaceRoot ctx) (so_file operation) of
        Inl e \<Rightarrow> exec_throw e
      | Inr targetPath \<Rightarrow>
          exec_bind (pathExists targetPath) (\<lambda>exists.
          exec_bind (if exists
                     then exec_bind (readFile targetPath) (\<lambda>buffer.
                            case json_parse E (buffer_toString E ''utf8'' buffer) of
                              None \<Rightarrow> exec_throw JsonSyntaxError
                            | Some d \<Rightarrow> exec_ret d)
                     else exec_ret (JObj [])) (\<lambda>pkg.
            if pkg = JNull then exec_throw JsTypeError
            else
              script_body E ctx targetPath exists opId operation pkg)))"

text \<open>
  The registry of custom executors (operation-registry.ts): per kind, an optional
  \<^verbatim>\<open>simulate\<close> and an \<^verbatim>\<open>execute\<close>. A handler is the caller's code; it gets the paths and
  the confirmation flag, not the mutation log, so all it can change is the file system.
  An executor built without a registry has the registry that knows no kind. The progress
  callback is not modelled.
\<close>

record executor_handlers =
  eh_simulate :: "(operation_with_metadata \<Rightarrow> exec_context \<Rightarrow> world \<Rightarrow> (exec_error + unit) \<times> world) option"
  eh_execute :: "operation_with_metadata \<Rightarrow> exec_context \<Rightarrow> world \<Rightarrow> (exec_error + apply_result) \<times> world"

type_synonym registry = "string \<Rightarrow> executor_handlers option"


definition run_handler :: "(world \<Rightarrow> (exec_error + 'a) \<times> world) \<Rightarrow> 'a exec" where
  "run_handler h = (\<lambda>s. case h (rs_world s) of (r, w) \<Rightarrow> (r, s\<lparr>rs_world := w\<rparr>))"

definition kind_of :: "operation \<Rightarrow> string" where
  "kind_of op = (case op of FileOp _ \<Rightarrow> ''file'' | ConfigOp _ \<Rightarrow> ''config'' | CodeOp _ \<Rightarrow> ''code''
                 | ScriptOp _ \<Rightarrow> ''script'' | OtherOp k \<Rightarrow> k)"

definition custom_simulate ::
  "registry \<Rightarrow> operation \<Rightarrow>
   (operation_with_metadata \<Rightarrow> exec_context \<Rightarrow> world \<Rightarrow> (exec_error + unit) \<times> world) option" where
  "custom_simulate reg op = (case reg (kind_of op) of None \<Rightarrow> None | Some h \<Rightarrow> eh_simulate h)"

definition simulateOperation ::
  "env \<Rightarrow> registry \<Rightarrow> operation_with_metadata \<Rightarrow> exec_context \<Rightarrow> unit exec" where
  "simulateOperation E reg operation ctx =
     (case custom_simulate reg (owm_operation operation) of
        Some simulate \<Rightarrow> run_handler (simulate operation ctx)
      | None \<Rightarrow>
          (case owm_operation operation of
             FileOp fo \<Rightarrow> exec_bind (resolveFileContent E fo ctx (Some (owm_metadata operation)))
                           (\<lambda>_. exec_ret ())
           | ConfigOp _ \<Rightarrow> exec_ret ()
           | ScriptOp _ \<Rightarrow> exec_ret ()
           | other \<Rightarrow> exec_throw (UnsupportedKind (kind_of other))))"

definition applyOperation ::
  "env \<Rightarrow> registry \<Rightarrow> operation_with_metadata \<Rightarrow> exec_context \<Rightarrow> apply_result exec" where
  "applyOperation E reg operation ctx =
     (case reg (kind_of (owm_operation operation)) of
        Some customExecutor \<Rightarrow> run_handler (eh_execute customExecutor operation ctx)
      | None \<Rightarrow>
          (case owm_operation operation of
             FileOp fo \<Rightarrow> applyFileOperation E fo (owm_metadata operation) ctx
           | ConfigOp co \<Rightarrow> applyConfigOperation E co (op_id operation) ctx
           | ScriptOp so \<Rightarrow> applyScriptOperation E so (op_id operation) ctx
           | other \<Rightarrow> exec_throw (UnsupportedKind (kind_of other))))"

text \<open>\<^verbatim>\<open>rollbackMutations\<close>: the mutation log from its last entry to its first.\<close>

definition undo_mutation :: "applied_mutation \<Rightarrow> unit exec" where
  "undo_mutation mutation =
     (case am_backupPath mutation of
        Some backupPath \<Rightarrow>
          exec_bind (ensureParentDir (am_targetPath mutation)) (\<lambda>_.
            exec_io (\<lambda>w. fs_copyFile w backupPath (am_targetPath mutation)))
      | None \<Rightarrow>
          if \<not> am_existedBefore mutation
          then exec_world (\<lambda>w. fs_rm_force w (am_targetPath mutation))
          else exec_ret ())"

fun undo_all :: "applied_mutation list \<Rightarrow> unit exec" where
  "undo_all [] = exec_ret ()"
| "undo_all (m # ms) = exec_bind (undo_mutation m) (\<lambda>_. undo_all ms)"

definition rollbackMutations :: "unit exec" where
  "rollbackMutations = (\<lambda>s. undo_all (rev (rs_mutations s)) s)"

definition persistJournal :: "env \<Rightarrow> path \<Rightarrow> world \<times> journal_state \<Rightarrow> world \<times> journal_state" where
  "persistJournal E backupDir wj =
     (let w = fst wj; j = snd wj; entries = jn_entries j
      in if length entries = 0 then wj
         else
           (let w_logPath =
                  (case jn_logPath j of
                     Some l \<Rightarrow> (w, l)
                   | None \<Rightarrow>
                       (let now_w = clock_read E (fs_mkdir_p w backupDir)
                        in (snd now_w, backupDir @ [show_nat (fst now_w) @ ''-setup-log.json''])));
                logPath = snd w_logPath;
                w1 = fs_mkdir_p (fst w_logPath) (path_dirname logPath);
                w2 = fs_writeFile w1 logPath (buffer_from E ''utf8'' (journal_pretty E entries))
            in (w2, journal_setLogPath logPath j)))"

section \<open>Executor: the run (createExecutor().execute)\<close>

record execution_options =
  eo_dryRun :: bool
  eo_autoConfirm :: bool
  eo_backupDir :: "path option"

record execution_result =
  er_success :: bool
  er_applied :: "operation_with_metadata list"
  er_failed :: "(operation_with_metadata \<times> exec_error) list option"
  er_rollbackAvailable :: bool
  er_logPath :: "path option"
  er_backups :: "path list"
  er_logs :: "path list"

text \<open>
  The two journal calls around an operation, when the caller gave a journal
  (\<^verbatim>\<open>journal?.\<close>).
\<close>

definition with_journal_before :: "env \<Rightarrow> operation_with_metadata \<Rightarrow> run_state \<Rightarrow> run_state" where
  "with_journal_before E operation s =
     (case rs_journal s of
        None \<Rightarrow> s
      | Some j \<Rightarrow>
          (let wj = journal_beforeOperation E operation (rs_world s, j)
           in s\<lparr>rs_world := fst wj, rs_journal := Some (snd wj)\<rparr>))"

definition with_journal_after ::
  "env \<Rightarrow> operation_with_metadata \<Rightarrow> path option \<Rightarrow> run_state \<Rightarrow> run_state" where
  "with_journal_after E operation backupPath s =
     (case rs_journal s of
        None \<Rightarrow> s
      | Some j \<Rightarrow> s\<lparr>rs_journal := Some (journal_afterOperation E operation backupPath (rs_world s) j)\<rparr>)"

text \<open>
  The loops over the stages and their operations. \<open>Failed\<close> is the \<^verbatim>\<open>catch\<close> block entered:
  the operation, its error, the operations applied so far and the state at the throw.
\<close>

datatype loop_result =
    Completed "operation_with_metadata list" run_state
  | Failed operation_with_metadata exec_error "operation_with_metadata list" run_state

fun run_operations ::
  "env \<Rightarrow> registry \<Rightarrow> exec_context \<Rightarrow> bool \<Rightarrow> operation_with_metadata list \<Rightarrow>
   operation_with_metadata list \<Rightarrow> run_state \<Rightarrow> loop_result" where
  "run_operations E reg ctx dryRun [] applied s = Completed applied s"
| "run_operations E reg ctx dryRun (operation # rest) applied s =
     (if dryRun then
        (case simulateOperation E reg operation ctx s of
           (Inl e, s1) \<Rightarrow> Failed operation e applied s1
         | (Inr _, s1) \<Rightarrow>
             run_operations E reg ctx dryRun rest applied
               (with_journal_after E operation None (with_journal_before E operation s1)))
      else
        (case applyOperation E reg operation ctx (with_journal_before E operation s) of
           (Inl e, s1) \<Rightarrow> Failed operation e applied s1
         | (Inr result, s1) \<Rightarrow>
             run_operations E reg ctx dryRun rest
               (if res_changed result then applied @ [operation] else applied)
               (with_journal_after E operation (res_backupPath result) s1)))"

fun run_stages ::
  "env \<Rightarrow> registry \<Rightarrow> exec_context \<Rightarrow> bool \<Rightarrow> plan_stage list \<Rightarrow>
   operation_with_metadata list \<Rightarrow> run_state \<Rightarrow> loop_result" where
  "run_stages E reg ctx dryRun [] applied s = Completed applied s"
| "run_stages E reg ctx dryRun (stage # stages) applied s =
     (case run_operations E reg ctx dryRun (st_operations stage) applied s of
        Completed applied1 s1 \<Rightarrow> run_stages E reg ctx dryRun stages applied1 s1
      | failure \<Rightarrow> failure)"

datatype 'a outcome = Returned 'a | Rejected exec_error

definition result_of :: "bool \<Rightarrow> bool \<Rightarrow> operation_with_metadata list \<Rightarrow>
    (operation_with_metadata \<times> exec_error) list option \<Rightarrow> run_state \<Rightarrow> execution_result" where
  "result_of success dryRun applied failed s =
     \<lparr>er_success = success,
      er_applied = applied,
      er_failed = failed,
      er_rollbackAvailable = (\<not> dryRun),
      er_logPath = (case rs_journal s of Some j \<Rightarrow> jn_logPath j | None \<Rightarrow> None),
      er_backups = rs_backupRegistry s,
      er_logs = (case rs_journal s of Some j \<Rightarrow> jn_logs j | None \<Rightarrow> [])\<rparr>"

definition execute ::
  "env \<Rightarrow> registry \<Rightarrow> path \<Rightarrow> plan_stage list \<Rightarrow> execution_options \<Rightarrow> journal_state option \<Rightarrow>
   world \<Rightarrow> execution_result outcome \<times> run_state" where
  "execute E reg workspaceRoot stages options journal w =
     (let backupDir = (case eo_backupDir options of
                         Some d \<Rightarrow> d
                       | None \<Rightarrow> workspaceRoot @ [''.kb'', ''logs'', ''setup'']);
          ctx = \<lparr>ctx_workspaceRoot = workspaceRoot, ctx_backupDir = backupDir,
                 ctx_autoConfirm = eo_autoConfirm options\<rparr>;
          s0 = \<lparr>rs_world = w, rs_mutations = [], rs_backupRegistry = [], rs_journal = journal\<rparr>
      in case run_stages E reg ctx (eo_dryRun options) stages [] s0 of
           Failed operation err applied s1 \<Rightarrow>
             (if \<not> eo_dryRun options then
                (case rollbackMutations s1 of
                   (Inl e, s2) \<Rightarrow> (Rejected e, s2)
                 | (Inr _, s2) \<Rightarrow>
                     (Returned (result_of False (eo_dryRun options) applied (Some [(operation, err)]) s2), s2))
              else (Returned (result_of False (eo_dryRun options) applied (Some [(operation, err)]) s1), s1))
         | Completed applied s1 \<Rightarrow>
             (let s2 = (case rs_journal s1 of
                          None \<Rightarrow> s1
                        | Some j \<Rightarrow>
                            (let wj = persistJournal E backupDir (rs_world s1, j)
                             in s1\<lparr>rs_world := fst wj, rs_journal := Some (snd wj)\<rparr>))
              in (Returned (result_of True (eo_dryRun options) applied None s2), s2)))"

section \<open>File analyzer (analyzer/file-analyzer.ts)\<close>





section \<open>A concrete environment for running the model\<close>


definition world_of :: "(path \<times> fnode) list \<Rightarrow> world" where
  "world_of fl = \<lparr>files = map_of fl, dirs = {}, ticks = 0\<rparr>"

definition demo_file_op :: "string \<Rightarrow> file_action \<Rightarrow> string \<Rightarrow> string \<Rightarrow> string list option \<Rightarrow> operation_with_metadata" where
  "demo_file_op i a p c deps =
     \<lparr>owm_operation = FileOp \<lparr>fo_action = a, fo_path = p, fo_content = Some c,
        fo_template = None, fo_encoding = None, fo_mode = None, fo_checksum = None\<rparr>,
      owm_metadata = \<lparr>md_id = i, md_dependencies = deps, md_rawContentBase64 = None\<rparr>\<rparr>"

definition demo_config_op :: "config_action \<Rightarrow> string \<Rightarrow> json option \<Rightarrow> config_operation" where
  "demo_config_op a p v =
     \<lparr>co_action = a, co_path = ''.kb/kb-labs.config.json'', co_pointer = p, co_value = v,
      co_strategy = None\<rparr>"



definition demo_md :: "string \<Rightarrow> operation_metadata" where
  "demo_md i = \<lparr>md_id = i, md_dependencies = None, md_rawContentBase64 = None\<rparr>"




section \<open>Auxiliary notions for the statements\<close>

text \<open>
  \<open>without_missing_dependencies\<close> drops from every operation the dependencies that name no
  operation of the list; \<open>same_graph\<close> compares the in-degrees and the successor sets of two
  dependency graphs; \<open>indegree_ok\<close> and \<open>staged_ok\<close> are the invariants of the two loops.
  \<open>fresh_chain ks v\<close> is the value \<open>v\<close> wrapped in one new single-member object per key of
  \<open>ks\<close>; \<open>object_at d p\<close> follows the path \<open>p\<close> through objects only;
  \<open>null_missing_or_not_object\<close> is the test of \<^verbatim>\<open>getParent\<close> (\<^verbatim>\<open>== null\<close>, or
  \<^verbatim>\<open>typeof !== 'object'\<close>).
\<close>

definition without_missing_dependencies :: "operation_with_metadata list \<Rightarrow> operation_with_metadata list" where
  "without_missing_dependencies ops =
     map (\<lambda>op. op\<lparr>owm_metadata := (owm_metadata op)
            \<lparr>md_dependencies := Some (filter (\<lambda>d. d \<in> op_id ` set ops) (op_dependencies op))\<rparr>\<rparr>) ops"

definition same_graph :: "dep_graph \<Rightarrow> dep_graph \<Rightarrow> bool" where
  "same_graph st st' \<longleftrightarrow> dg_indegree st = dg_indegree st' \<and> dg_graph st = dg_graph st'"

definition indegree_ok :: "string set \<Rightarrow> dep_graph \<Rightarrow> bool" where
  "indegree_ok K st \<longleftrightarrow> distinct (map fst (dg_indegree st)) \<and> fst ` set (dg_indegree st) \<subseteq> K"

definition staged_ok ::
  "(string \<times> operation_with_metadata) list \<Rightarrow> string list \<Rightarrow> plan_stage list \<Rightarrow> bool" where
  "staged_ok I proc stages \<longleftrightarrow>
     distinct proc \<and> (\<forall>k\<in>set proc. \<exists>op\<in>set (plan_operations stages). map_of I k = Some op)"

fun fresh_chain :: "string list \<Rightarrow> json \<Rightarrow> json" where
  "fresh_chain [] v = v"
| "fresh_chain (k # ks) v = JObj [(k, fresh_chain ks v)]"

fun object_at :: "json \<Rightarrow> string list \<Rightarrow> (string \<times> json) list option" where
  "object_at (JObj kvs) [] = Some kvs"
| "object_at (JObj kvs) (k # ks) = (case map_of kvs k of Some child \<Rightarrow> object_at child ks | None \<Rightarrow> None)"
| "object_at v ks = None"

definition null_missing_or_not_object :: "json option \<Rightarrow> bool" where
  "null_missing_or_not_object v =
     (case v of None \<Rightarrow> True | Some JNull \<Rightarrow> True | Some (JBool b) \<Rightarrow> True
              | Some (JNum n) \<Rightarrow> True | Some (JStr s) \<Rightarrow> True
              | Some (JsFunction p name) \<Rightarrow> True | _ \<Rightarrow> False)"

definition operation_path :: "operation \<Rightarrow> string option" where
  "operation_path op =
     (case op of FileOp fo \<Rightarrow> Some (fo_path fo) | ConfigOp co \<Rightarrow> Some (co_path co)
               | ScriptOp so \<Rightarrow> Some (so_file so) | _ \<Rightarrow> None)"

definition single_stage :: "operation_with_metadata list \<Rightarrow> plan_stage list" where
  "single_stage ops = [\<lparr>st_id = ''stage-1'', st_operations = ops, st_parallel = False\<rparr>]"






definition backup_path :: "env \<Rightarrow> exec_context \<Rightarrow> path \<Rightarrow> string \<Rightarrow> nat \<Rightarrow> path" where
  "backup_path E ctx targetPath opId tick =
     ctx_backupDir ctx @
       [(show_nat (date_now E tick) @ ''-'' @ sanitizeForFilename opId @ ''-'' @
         sanitizeForFilename (path_relative (ctx_workspaceRoot ctx) targetPath)) @ ''.bak'']"

definition in_dir :: "path \<Rightarrow> path \<Rightarrow> bool" where
  "in_dir d p \<longleftrightarrow> p \<noteq> [] \<and> butlast p = d"

definition disk_step ::
  "env \<Rightarrow> exec_context \<Rightarrow> string \<Rightarrow> path \<Rightarrow> apply_result \<Rightarrow> run_state \<Rightarrow> run_state \<Rightarrow> bool" where
  "disk_step E ctx opId t res s s' \<longleftrightarrow>
     rs_journal s' = rs_journal s \<and> res_changed res \<and>
     (case files (rs_world s) t of
        Some f \<Rightarrow>
          res_backupPath res = Some (backup_path E ctx t opId (ticks (rs_world s)))
          \<and> rs_backupRegistry s' = rs_backupRegistry s @ [backup_path E ctx t opId (ticks (rs_world s))]
          \<and> (\<exists>eb. rs_mutations s' = rs_mutations s @
                 [\<lparr>am_targetPath = t,
                   am_backupPath = Some (backup_path E ctx t opId (ticks (rs_world s))),
                   am_existedBefore = eb\<rparr>])
          \<and> (\<exists>X. files (rs_world s') =
                 ((files (rs_world s))(backup_path E ctx t opId (ticks (rs_world s)) \<mapsto> f))(t := X))
      | None \<Rightarrow>
          res_backupPath res = None
          \<and> rs_backupRegistry s' = rs_backupRegistry s
          \<and> rs_mutations s' = rs_mutations s @
                 [\<lparr>am_targetPath = t, am_backupPath = None, am_existedBefore = False\<rparr>]
          \<and> (\<exists>X. files (rs_world s') = (files (rs_world s))(t := X)))"

definition builtin :: "registry \<Rightarrow> operation_with_metadata \<Rightarrow> bool" where
  "builtin reg op \<longleftrightarrow> reg (kind_of (owm_operation op)) = None"

definition undo_files :: "applied_mutation \<Rightarrow> (path \<rightharpoonup> fnode) \<Rightarrow> (path \<rightharpoonup> fnode)" where
  "undo_files m F =
     (case am_backupPath m of
        Some b \<Rightarrow> F(am_targetPath m := F b)
      | None \<Rightarrow> if \<not> am_existedBefore m then F(am_targetPath m := None) else F)"

definition rewind :: "applied_mutation list \<Rightarrow> (path \<rightharpoonup> fnode) \<Rightarrow> (path \<rightharpoonup> fnode)" where
  "rewind M F = fold undo_files (rev M) F"

definition backups_ok :: "path \<Rightarrow> applied_mutation list \<Rightarrow> (path \<rightharpoonup> fnode) \<Rightarrow> bool" where
  "backups_ok bd M F \<longleftrightarrow>
     (\<forall>m \<in> set M. \<not> in_dir bd (am_targetPath m)
        \<and> (case am_backupPath m of Some b \<Rightarrow> in_dir bd b \<and> F b \<noteq> None | None \<Rightarrow> True))"

definition loop_state :: "loop_result \<Rightarrow> run_state" where
  "loop_state r = (case r of Completed applied s \<Rightarrow> s | Failed op e applied s \<Rightarrow> s)"

definition builtin_plan :: "registry \<Rightarrow> operation_with_metadata list \<Rightarrow> bool" where
  "builtin_plan reg ops \<longleftrightarrow> list_all (builtin reg) ops"

definition target_of :: "path \<Rightarrow> operation_with_metadata \<Rightarrow> path option" where
  "target_of root op = map_option (path_resolve root) (operation_path (owm_operation op))"

definition targets_outside :: "path \<Rightarrow> path \<Rightarrow> operation_with_metadata list \<Rightarrow> bool" where
  "targets_outside root bd ops \<longleftrightarrow>
     list_all (\<lambda>op. case target_of root op of None \<Rightarrow> True | Some t \<Rightarrow> \<not> in_dir bd t) ops"

definition demo_registry :: registry where
  "demo_registry kind =
     (if kind = ''custom''
      then Some \<lparr>eh_simulate = None,
                 eh_execute = (\<lambda>operation ctx w.
                    (Inr \<lparr>res_changed = True, res_backupPath = None\<rparr>,
                     fs_writeFile w (ctx_workspaceRoot ctx @ [''custom.txt'']) ''made''))\<rparr>
      else None)"

definition demo_other_op :: "string \<Rightarrow> operation \<Rightarrow> operation_with_metadata" where
  "demo_other_op i operation = \<lparr>owm_operation = operation, owm_metadata = demo_md i\<rparr>"

definition demo_failing_plan :: "plan_stage list" where
  "demo_failing_plan =
     single_stage [demo_file_op ''file-1'' FileUpdate ''a.txt'' ''x'' None,
                   demo_other_op ''code-1'' (CodeOp ''transform'')]"

definition demo_world :: world where
  "demo_world = world_of [([''w'', ''a.txt''], \<lparr>f_bytes = ''o'', f_mode = 420\<rparr>)]"


section \<open>Properties of the planner\<close>

lemma map_of_fold_update_other:
  "k \<notin> f ` set ops \<Longrightarrow>
   map_of (fold (\<lambda>op m. AList.update (f op) (h op) m) ops m0) k = map_of m0 k"
  by (induction ops arbitrary: m0) (auto simp: update_conv')

lemma map_of_fold_update_None:
  "map_of (fold (\<lambda>op m. AList.update (f op) (h op) m) ops m0) k = None \<longleftrightarrow>
     k \<notin> f ` set ops \<and> map_of m0 k = None"
  by (induction ops arbitrary: m0) (auto simp: update_conv')

lemma map_of_fold_update_Some:
  "distinct (map f ops) \<Longrightarrow> x \<in> set ops \<Longrightarrow>
   map_of (fold (\<lambda>op m. AList.update (f op) (h op) m) ops m0) (f x) = Some (h x)"
proof (induction ops arbitrary: m0)
  case Nil
  then show ?case by simp
next
  case (Cons a ops)
  show ?case
  proof (cases "x \<in> set ops")
    case True
    with Cons show ?thesis by simp
  next
    case False
    with Cons.prems have "x = a" "f a \<notin> f ` set ops" by auto
    then show ?thesis
      by (simp add: map_of_fold_update_other update_conv')
  qed
qed

lemma idToOperation_None:
  "map_of (idToOperation ops) k = None \<longleftrightarrow> k \<notin> op_id ` set ops"
  unfolding idToOperation_def by (simp add: map_of_fold_update_None)

lemma idToOperation_Some:
  "distinct (map op_id ops) \<Longrightarrow> x \<in> set ops \<Longrightarrow> map_of (idToOperation ops) (op_id x) = Some x"
  unfolding idToOperation_def by (rule map_of_fold_update_Some)

lemma add_dependency_warnings_mono:
  "set (dg_warnings st) \<subseteq> set (dg_warnings (add_dependency I x d st))"
  by (auto simp: add_dependency_def)

lemma fold_add_dependency_warnings_mono:
  "set (dg_warnings st) \<subseteq> set (dg_warnings (fold (add_dependency I x) ds st))"
proof (induction ds arbitrary: st)
  case Nil
  then show ?case by simp
next
  case (Cons d ds)
  from add_dependency_warnings_mono [of st I x d] Cons [of "add_dependency I x d st"]
  show ?case by auto
qed

lemma fold_add_dependency_missing:
  "y \<in> set ds \<Longrightarrow> map_of I y = None \<Longrightarrow>
   missing_dependency_warning x y \<in> set (dg_warnings (fold (add_dependency I x) ds st))"
proof (induction ds arbitrary: st)
  case Nil
  then show ?case by simp
next
  case (Cons d ds)
  show ?case
  proof (cases "y = d")
    case True
    then have "missing_dependency_warning x y \<in> set (dg_warnings (add_dependency I x d st))"
      using Cons.prems(2) by (simp add: add_dependency_def)
    with fold_add_dependency_warnings_mono [of "add_dependency I x d st" I x ds]
    show ?thesis by auto
  next
    case False
    with Cons show ?thesis by simp
  qed
qed

lemma fold_add_dependencies_warnings_mono:
  "set (dg_warnings st) \<subseteq> set (dg_warnings (fold (add_dependencies I) ops st))"
proof (induction ops arbitrary: st)
  case Nil
  then show ?case by simp
next
  case (Cons a ops)
  from fold_add_dependency_warnings_mono [of st I "op_id a" "op_dependencies a"]
       Cons [of "add_dependencies I a st"]
  show ?case by (auto simp: add_dependencies_def)
qed

lemma fold_add_dependencies_missing:
  "op \<in> set ops \<Longrightarrow> y \<in> set (op_dependencies op) \<Longrightarrow> map_of I y = None \<Longrightarrow>
   missing_dependency_warning (op_id op) y \<in> set (dg_warnings (fold (add_dependencies I) ops st))"
proof (induction ops arbitrary: st)
  case Nil
  then show ?case by simp
next
  case (Cons a ops)
  show ?case
  proof (cases "op = a")
    case True
    have "missing_dependency_warning (op_id op) y \<in> set (dg_warnings (add_dependencies I a st))"
      unfolding add_dependencies_def True [symmetric]
      by (rule fold_add_dependency_missing) (use Cons.prems in auto)
    with fold_add_dependencies_warnings_mono [of "add_dependencies I a st" I ops]
    show ?thesis by auto
  next
    case False
    with Cons show ?thesis by simp
  qed
qed

lemma collect_dependencies_missing:
  "op \<in> set ops \<Longrightarrow> y \<in> set (op_dependencies op) \<Longrightarrow> y \<notin> op_id ` set ops \<Longrightarrow>
   missing_dependency_warning (op_id op) y \<in> set (dg_warnings (collect_dependencies ops ws))"
  unfolding collect_dependencies_def
  by (rule fold_add_dependencies_missing) (simp_all add: idToOperation_None)

lemma fold_add_dependency_same_graph:
  assumes "\<And>d. map_of I d = None \<longleftrightarrow> d \<notin> S" "\<And>d. map_of I' d = None \<longleftrightarrow> d \<notin> S"
    and "same_graph st st'"
  shows "same_graph (fold (add_dependency I x) ds st)
                    (fold (add_dependency I' x) (filter (\<lambda>d. d \<in> S) ds) st')"
  using assms(3)
proof (induction ds arbitrary: st st')
  case Nil
  then show ?case by simp
next
  case (Cons d ds)
  show ?case
  proof (cases "d \<in> S")
    case True
    have "same_graph (add_dependency I x d st) (add_dependency I' x d st')"
      using True assms(1,2) Cons.prems by (simp add: add_dependency_def same_graph_def)
    from Cons.IH [OF this] True show ?thesis by simp
  next
    case False
    have "same_graph (add_dependency I x d st) st'"
      using False assms(1) Cons.prems by (simp add: add_dependency_def same_graph_def)
    from Cons.IH [OF this] False show ?thesis by simp
  qed
qed

lemma fold_add_dependencies_same_graph:
  assumes "\<And>d. map_of I d = None \<longleftrightarrow> d \<notin> S" "\<And>d. map_of I' d = None \<longleftrightarrow> d \<notin> S"
    and "same_graph st st'"
  shows "same_graph (fold (add_dependencies I) l st)
           (fold (add_dependencies I')
              (map (\<lambda>op. op\<lparr>owm_metadata := (owm_metadata op)
                 \<lparr>md_dependencies := Some (filter (\<lambda>d. d \<in> S) (op_dependencies op))\<rparr>\<rparr>) l) st')"
  using assms(3)
proof (induction l arbitrary: st st')
  case Nil
  then show ?case by simp
next
  case (Cons a l)
  let ?a' = "a\<lparr>owm_metadata := (owm_metadata a)
                 \<lparr>md_dependencies := Some (filter (\<lambda>d. d \<in> S) (op_dependencies a))\<rparr>\<rparr>"
  have i: "op_id ?a' = op_id a" by (simp add: op_id_def)
  have d: "op_dependencies ?a' = filter (\<lambda>d. d \<in> S) (op_dependencies a)"
    by (simp add: op_dependencies_def)
  have "same_graph (add_dependencies I a st) (add_dependencies I' ?a' st')"
    unfolding add_dependencies_def i d
    by (rule fold_add_dependency_same_graph [OF assms(1,2) Cons.prems])
  from Cons.IH [OF this] show ?case by simp
qed

lemma op_id_without_missing:
  "map op_id (without_missing_dependencies ops) = map op_id ops"
  by (simp add: without_missing_dependencies_def op_id_def)

lemma collect_dependencies_ignores_missing:
  "same_graph (collect_dependencies ops ws) (collect_dependencies (without_missing_dependencies ops) ws)"
proof -
  let ?S = "op_id ` set ops"
  have ids: "op_id ` set (without_missing_dependencies ops) = ?S"
    using op_id_without_missing [of ops] by (metis set_map)
  have a: "\<And>d. map_of (idToOperation ops) d = None \<longleftrightarrow> d \<notin> ?S"
    by (simp add: idToOperation_None)
  have b: "\<And>d. map_of (idToOperation (without_missing_dependencies ops)) d = None \<longleftrightarrow> d \<notin> ?S"
    by (simp add: idToOperation_None ids)
  have init: "fold (\<lambda>op m. AList.update (op_id op) (0::int) m) (without_missing_dependencies ops) []
            = fold (\<lambda>op m. AList.update (op_id op) 0 m) ops []"
    by (simp add: without_missing_dependencies_def fold_map comp_def op_id_def)
  show ?thesis
    unfolding collect_dependencies_def init
    unfolding without_missing_dependencies_def
    by (rule fold_add_dependencies_same_graph [OF a b [unfolded without_missing_dependencies_def]])
       (simp add: same_graph_def)
qed

lemma add_dependency_indegree_other:
  "k' \<noteq> k \<or> map_of I d = None \<Longrightarrow>
   map_of (dg_indegree (add_dependency I k' d st)) k = map_of (dg_indegree st) k"
  by (auto simp: add_dependency_def update_conv')

lemma fold_add_dependency_indegree_other:
  "k' \<noteq> k \<or> (\<forall>d\<in>set ds. map_of I d = None) \<Longrightarrow>
   map_of (dg_indegree (fold (add_dependency I k') ds st)) k = map_of (dg_indegree st) k"
  by (induction ds arbitrary: st) (auto simp: add_dependency_indegree_other)

lemma fold_add_dependencies_indegree_other:
  "\<forall>a\<in>set l. op_id a = k \<longrightarrow> (\<forall>d\<in>set (op_dependencies a). map_of I d = None) \<Longrightarrow>
   map_of (dg_indegree (fold (add_dependencies I) l st)) k = map_of (dg_indegree st) k"
proof (induction l arbitrary: st)
  case Nil
  then show ?case by simp
next
  case (Cons a l)
  have "map_of (dg_indegree (add_dependencies I a st)) k = map_of (dg_indegree st) k"
    unfolding add_dependencies_def
    by (rule fold_add_dependency_indegree_other) (use Cons.prems in auto)
  with Cons show ?case by simp
qed

lemma add_dependency_indegree_ok:
  "x \<in> K \<Longrightarrow> indegree_ok K st \<Longrightarrow> indegree_ok K (add_dependency I x d st)"
  by (auto simp: indegree_ok_def add_dependency_def distinct_update dom_update)

lemma fold_add_dependency_indegree_ok:
  "x \<in> K \<Longrightarrow> indegree_ok K st \<Longrightarrow> indegree_ok K (fold (add_dependency I x) ds st)"
  by (induction ds arbitrary: st) (auto simp: add_dependency_indegree_ok)

lemma fold_add_dependencies_indegree_ok:
  "op_id ` set l \<subseteq> K \<Longrightarrow> indegree_ok K st \<Longrightarrow> indegree_ok K (fold (add_dependencies I) l st)"
  by (induction l arbitrary: st) (auto simp: add_dependencies_def fold_add_dependency_indegree_ok)

lemma init_indegree_ok:
  "distinct (map fst m0) \<Longrightarrow> fst ` set m0 \<subseteq> K \<Longrightarrow> op_id ` set l \<subseteq> K \<Longrightarrow>
   distinct (map fst (fold (\<lambda>op m. AList.update (op_id op) (0::int) m) l m0))
   \<and> fst ` set (fold (\<lambda>op m. AList.update (op_id op) (0::int) m) l m0) \<subseteq> K"
  by (induction l arbitrary: m0) (auto simp: distinct_update dom_update)

lemma collect_dependencies_indegree_ok:
  "indegree_ok (op_id ` set ops) (collect_dependencies ops ws)"
  unfolding collect_dependencies_def
  by (rule fold_add_dependencies_indegree_ok)
     (use init_indegree_ok [of "[]" "op_id ` set ops" ops] in \<open>auto simp: indegree_ok_def\<close>)

lemma collect_dependencies_indegree_zero:
  assumes "distinct (map op_id ops)" "x \<in> set ops"
    and "\<forall>d\<in>set (op_dependencies x). d \<notin> op_id ` set ops"
  shows "map_of (dg_indegree (collect_dependencies ops ws)) (op_id x) = Some 0"
proof -
  have eq: "\<forall>a\<in>set ops. op_id a = op_id x \<longrightarrow> a = x"
    using assms(1,2) by (meson distinct_map inj_onD)
  have "map_of (dg_indegree (collect_dependencies ops ws)) (op_id x) =
        map_of (fold (\<lambda>op m. AList.update (op_id op) (0::int) m) ops []) (op_id x)"
    unfolding collect_dependencies_def
    by (subst fold_add_dependencies_indegree_other) (use eq assms(3) in \<open>auto simp: idToOperation_None\<close>)
  also have "\<dots> = Some 0"
    by (rule map_of_fold_update_Some [OF assms(1,2)])
  finally show ?thesis .
qed

lemma fold_relax_queue: "\<exists>r. fst (fold relax ns (q, ind)) = q @ r"
proof (induction ns arbitrary: q ind)
  case Nil
  then show ?case by simp
next
  case (Cons n ns)
  obtain q1 ind1 where r: "relax n (q, ind) = (q1, ind1)" by force
  then obtain r1 where q1: "q1 = q @ r1"
    by (auto simp: relax_def Let_def split: if_splits)
  from Cons [of q1 ind1] obtain r2 where "fst (fold relax ns (q1, ind1)) = q1 @ r2" by blast
  with r q1 show ?case by simp
qed

lemma drain_prefix:
  assumes "distinct xs" "set xs \<inter> set proc = {}" "\<forall>k\<in>set xs. map_of I k \<noteq> None"
  shows "\<exists>q' ind'. drain I g (length xs) (xs @ rest, ind, proc, sops) =
           (q', ind', proc @ xs, sops @ map (\<lambda>k. the (map_of I k)) xs)"
  using assms
proof (induction xs arbitrary: rest ind proc sops)
  case Nil
  then show ?case by simp
next
  case (Cons x xs)
  from Cons.prems obtain op where op: "map_of I x = Some op" by auto
  from Cons.prems have nx: "x \<notin> set proc" by auto
  obtain r where r: "fst (fold relax (neighbours g x) (xs @ rest, ind)) = xs @ (rest @ r)"
    using fold_relax_queue [of "neighbours g x" "xs @ rest" ind] by auto
  let ?ind = "snd (fold relax (neighbours g x) (xs @ rest, ind))"
  have "\<exists>q' ind'. drain I g (length xs) (xs @ (rest @ r), ?ind, proc @ [x], sops @ [op]) =
           (q', ind', (proc @ [x]) @ xs, (sops @ [op]) @ map (\<lambda>k. the (map_of I k)) xs)"
    by (rule Cons.IH) (use Cons.prems in auto)
  then show ?case
    using op nx r by (simp add: Let_def set_add_def)
qed

lemma rounds_prefix: "prefix stages (snd (rounds I g (q, ind, proc, stages)))"
proof (induction I g "(q, ind, proc, stages)" arbitrary: q ind proc stages rule: rounds.induct)
  case (1 idToOp g queue ind processed stages)
  show ?case
  proof (cases "queue = []")
    case True
    then show ?thesis by (simp add: rounds.simps)
  next
    case False
    obtain q' ind' proc' sops where d: "drain idToOp g (length queue) (queue, ind, processed, []) = (q', ind', proc', sops)"
      by (metis prod_cases4)
    let ?st = "if sops \<noteq> [] then push_stage stages sops (length sops > 1) else stages"
    have "prefix ?st (snd (rounds idToOp g (q', ind', proc', ?st)))"
      by (rule 1 [OF False d [symmetric]]) auto
    moreover have "prefix stages ?st" by (simp add: push_stage_def)
    ultimately have "prefix stages (snd (rounds idToOp g (q', ind', proc', ?st)))"
      by (rule prefix_order.trans [rotated])
    then show ?thesis using False d by (subst rounds.simps) simp
  qed
qed

lemma append_remaining_prefix: "prefix (snd ps) (snd (append_remaining ops ps))"
  unfolding append_remaining_def
proof (induction ops arbitrary: ps)
  case Nil
  then show ?case by simp
next
  case (Cons a ops)
  let ?ps = "if op_id a \<notin> set (fst ps) then (set_add (fst ps) (op_id a), push_stage (snd ps) [a] False) else ps"
  have "prefix (snd ps) (snd ?ps)" by (simp add: push_stage_def)
  with Cons [of ?ps] show ?case by (auto intro: prefix_order.trans simp del: set_add_def)
qed

lemma stage_name_1: "stage_name (Suc 0) = ''stage-1''"
  by (simp add: stage_name_def show_nat.simps digit_char_def)

lemma buildStages_first_stage:
  assumes "distinct (map op_id ops)" "x \<in> set ops"
    and "\<forall>d\<in>set (op_dependencies x). d \<notin> op_id ` set ops"
  shows "\<exists>sops more. fst (buildStages ops ws) =
           \<lparr>st_id = ''stage-1'', st_operations = sops, st_parallel = (length sops > 1)\<rparr> # more
         \<and> x \<in> set sops"
proof -
  define I where "I = idToOperation ops"
  define dg where "dg = collect_dependencies ops ws"
  define q0 where "q0 = map fst (filter (\<lambda>kv. snd kv = 0) (dg_indegree dg))"
  define sops where "sops = map (\<lambda>k. the (map_of I k)) q0"
  have ok: "indegree_ok (op_id ` set ops) dg"
    unfolding dg_def by (rule collect_dependencies_indegree_ok)
  have "map_of (dg_indegree dg) (op_id x) = Some 0"
    unfolding dg_def by (rule collect_dependencies_indegree_zero [OF assms])
  then have "(op_id x, 0) \<in> set (dg_indegree dg)" by (rule map_of_SomeD)
  then have xq: "op_id x \<in> set q0" unfolding q0_def by force
  have dq: "distinct q0"
    unfolding q0_def using ok by (simp add: indegree_ok_def distinct_map_filter)
  have kq: "\<forall>k\<in>set q0. map_of I k \<noteq> None"
    unfolding q0_def I_def using ok by (auto simp: indegree_ok_def idToOperation_None)
  from drain_prefix [OF dq _ kq, of "[]" "dg_graph dg" "[]" "dg_indegree dg" "[]"]
  obtain q' ind' where d: "drain I (dg_graph dg) (length q0) (q0, dg_indegree dg, [], []) = (q', ind', q0, sops)"
    by (auto simp: sops_def)
  have ne: "q0 \<noteq> []" "sops \<noteq> []" using xq by (auto simp: sops_def)
  let ?s1 = "\<lparr>st_id = ''stage-1'', st_operations = sops, st_parallel = (length sops > 1)\<rparr>"
  define ps where "ps = rounds I (dg_graph dg) (q0, dg_indegree dg, [], [])"
  have "ps = rounds I (dg_graph dg) (q', ind', q0, [?s1])"
    unfolding ps_def using ne d by (subst rounds.simps) (simp add: push_stage_def stage_name_1)
  then have "prefix [?s1] (snd ps)" by (simp add: rounds_prefix)
  moreover have "prefix (snd ps) (snd (append_remaining ops ps))" by (rule append_remaining_prefix)
  ultimately have p: "prefix [?s1] (snd ps)" "prefix [?s1] (snd (append_remaining ops ps))"
    by (auto intro: prefix_order.trans)
  have "prefix [?s1] (fst (buildStages ops ws))"
  proof -
    from p have "snd ps \<noteq> []" "snd (append_remaining ops ps) \<noteq> []" by auto
    with p show ?thesis
      unfolding buildStages_def Let_def
      by (simp add: I_def [symmetric] dg_def [symmetric] q0_def [symmetric] ps_def [symmetric])
  qed
  then obtain more where "fst (buildStages ops ws) = ?s1 # more"
    by (auto simp: prefix_def)
  moreover have "x \<in> set sops"
  proof -
    have "the (map_of I (op_id x)) = x"
      unfolding I_def by (simp add: idToOperation_Some [OF assms(1,2)])
    with xq show ?thesis unfolding sops_def by force
  qed
  ultimately show ?thesis by blast
qed

lemma drain_covers:
  "drain I g n (q, ind, proc, sops) = (q', ind', proc', sops') \<Longrightarrow>
     set sops \<subseteq> set sops' \<and> (distinct proc \<longrightarrow> distinct proc') \<and>
     (\<forall>k\<in>set proc'. k \<in> set proc \<or> (\<exists>op\<in>set sops'. map_of I k = Some op))"
proof (induction I g n "(q, ind, proc, sops)" arbitrary: q ind proc sops rule: drain.induct)
  case (1 idToOp g)
  then show ?case by simp
next
  case (2 idToOp g n ind processed stageOps)
  then show ?case by simp
next
  case (3 idToOp g n x queue ind processed stageOps)
  show ?case
  proof (cases "x \<in> set processed")
    case True
    with 3 show ?thesis by simp
  next
    case False
    show ?thesis
    proof (cases "map_of idToOp x")
      case None
      with False 3 show ?thesis by simp
    next
      case (Some op)
      define qi where "qi = fold relax (neighbours g x) (queue, ind)"
      have d: "drain idToOp g n (fst qi, snd qi, set_add processed x, stageOps @ [op]) = (q', ind', proc', sops')"
        using 3(4) False Some by (simp add: qi_def Let_def)
      have ih: "set (stageOps @ [op]) \<subseteq> set sops' \<and>
            (distinct (set_add processed x) \<longrightarrow> distinct proc') \<and>
            (\<forall>k\<in>set proc'. k \<in> set (set_add processed x) \<or> (\<exists>op\<in>set sops'. map_of idToOp k = Some op))"
        by (rule 3(3) [OF False Some qi_def d])
      then show ?thesis
        using False Some by (auto simp: set_add_def)
    qed
  qed
qed

lemma rounds_staged_ok:
  "staged_ok I proc stages \<Longrightarrow>
   staged_ok I (fst (rounds I g (q, ind, proc, stages))) (snd (rounds I g (q, ind, proc, stages)))"
proof (induction I g "(q, ind, proc, stages)" arbitrary: q ind proc stages rule: rounds.induct)
  case (1 idToOp g queue ind processed stages)
  show ?case
  proof (cases "queue = []")
    case True
    with 1(2) show ?thesis by (simp add: rounds.simps)
  next
    case False
    obtain q' ind' proc' sops where d: "drain idToOp g (length queue) (queue, ind, processed, []) = (q', ind', proc', sops)"
      by (metis prod_cases4)
    let ?st = "if sops \<noteq> [] then push_stage stages sops (length sops > 1) else stages"
    from drain_covers [OF d] 1(2)
    have ok: "staged_ok idToOp proc' ?st"
      by (fastforce simp: staged_ok_def plan_operations_def push_stage_def)
    have "staged_ok idToOp (fst (rounds idToOp g (q', ind', proc', ?st))) (snd (rounds idToOp g (q', ind', proc', ?st)))"
      by (rule 1(1) [OF False d [symmetric] refl refl ok])
    then show ?thesis using False d by (subst (1 2) rounds.simps) simp
  qed
qed

lemma append_remaining_covers:
  assumes "distinct (map op_id ops)"
  shows "set l \<subseteq> set ops \<Longrightarrow>
     (\<forall>x\<in>set ops. op_id x \<in> set (fst ps) \<longrightarrow> x \<in> set (plan_operations (snd ps))) \<Longrightarrow>
     (\<forall>x\<in>set ops. op_id x \<in> set (fst (append_remaining l ps)) \<longrightarrow>
          x \<in> set (plan_operations (snd (append_remaining l ps))))
     \<and> (\<forall>x\<in>set l. op_id x \<in> set (fst (append_remaining l ps)))
     \<and> set (fst ps) \<subseteq> set (fst (append_remaining l ps))"
proof (induction l arbitrary: ps)
  case Nil
  then show ?case by (simp add: append_remaining_def)
next
  case (Cons a l)
  let ?ps = "if op_id a \<notin> set (fst ps) then (set_add (fst ps) (op_id a), push_stage (snd ps) [a] False) else ps"
  have eq: "\<forall>x\<in>set ops. op_id x = op_id a \<longrightarrow> x = a"
    using assms Cons.prems(1) by (auto dest: inj_onD simp: distinct_map)
  have inv: "\<forall>x\<in>set ops. op_id x \<in> set (fst ?ps) \<longrightarrow> x \<in> set (plan_operations (snd ?ps))"
    using Cons.prems(2) eq by (auto simp: set_add_def plan_operations_def push_stage_def)
  have step: "append_remaining (a # l) ps = append_remaining l ?ps"
    by (simp add: append_remaining_def)
  have a_in: "op_id a \<in> set (fst ?ps)" "set (fst ps) \<subseteq> set (fst ?ps)"
    by (auto simp: set_add_def)
  from Cons.IH [OF _ inv] Cons.prems(1)
  have ih: "(\<forall>x\<in>set ops. op_id x \<in> set (fst (append_remaining l ?ps)) \<longrightarrow>
          x \<in> set (plan_operations (snd (append_remaining l ?ps))))
     \<and> (\<forall>x\<in>set l. op_id x \<in> set (fst (append_remaining l ?ps)))
     \<and> set (fst ?ps) \<subseteq> set (fst (append_remaining l ?ps))"
    by simp
  with a_in show ?case unfolding step by auto
qed

lemma buildStages_covers:
  assumes "distinct (map op_id ops)" "x \<in> set ops"
  shows "x \<in> set (plan_operations (fst (buildStages ops ws)))"
proof -
  define I where "I = idToOperation ops"
  define dg where "dg = collect_dependencies ops ws"
  define q0 where "q0 = map fst (filter (\<lambda>kv. snd kv = 0) (dg_indegree dg))"
  define ps where "ps = rounds I (dg_graph dg) (q0, dg_indegree dg, [], [])"
  have "staged_ok I [] []" by (simp add: staged_ok_def)
  from rounds_staged_ok [OF this, of "dg_graph dg" q0 "dg_indegree dg"]
  have ok: "staged_ok I (fst ps) (snd ps)" by (simp add: ps_def)
  have Ix: "\<And>y. y \<in> set ops \<Longrightarrow> map_of I (op_id y) = Some y"
    unfolding I_def by (rule idToOperation_Some [OF assms(1)])
  have P0: "\<forall>y\<in>set ops. op_id y \<in> set (fst ps) \<longrightarrow> y \<in> set (plan_operations (snd ps))"
    using ok Ix by (fastforce simp: staged_ok_def)
  have bs: "fst (buildStages ops ws) =
      (let stages = (if length (fst ps) \<noteq> length ops then snd (append_remaining ops ps) else snd ps)
       in if stages = [] then [\<lparr>st_id = ''stage-1'', st_operations = ops, st_parallel = (length ops > 1)\<rparr>]
          else stages)"
    unfolding buildStages_def Let_def
    by (simp add: I_def [symmetric] dg_def [symmetric] q0_def [symmetric] ps_def [symmetric])
  have "x \<in> set (plan_operations
          (if length (fst ps) \<noteq> length ops then snd (append_remaining ops ps) else snd ps))"
  proof (cases "length (fst ps) \<noteq> length ops")
    case True
    from append_remaining_covers [OF assms(1) subset_refl P0] assms(2)
    show ?thesis using True by auto
  next
    case False
    have sub: "set (fst ps) \<subseteq> op_id ` set ops"
    proof
      fix k assume "k \<in> set (fst ps)"
      with ok obtain op where "map_of I k = Some op" by (auto simp: staged_ok_def)
      then have "map_of (idToOperation ops) k \<noteq> None" by (simp add: I_def)
      then show "k \<in> op_id ` set ops" by (simp add: idToOperation_None)
    qed
    have "card (set (fst ps)) = length (fst ps)"
      using ok by (simp add: staged_ok_def distinct_card)
    moreover have "card (op_id ` set ops) = length ops"
      using assms(1) by (metis distinct_card length_map set_map)
    ultimately have "card (op_id ` set ops) \<le> card (set (fst ps))" using False by simp
    with sub have "set (fst ps) = op_id ` set ops"
      by (intro card_seteq) auto
    with P0 assms(2) False show ?thesis by auto
  qed
  then show ?thesis
    unfolding bs Let_def by (auto simp: plan_operations_def)
qed

lemma buildStages_warnings:
  "snd (buildStages ops ws) =
     (let dg = collect_dependencies ops ws;
          ps = rounds (idToOperation ops) (dg_graph dg)
                 (map fst (filter (\<lambda>kv. snd kv = 0) (dg_indegree dg)), dg_indegree dg, [], [])
      in if length (fst ps) \<noteq> length ops then dg_warnings dg @ [cycle_warning] else dg_warnings dg)"
  by (simp add: buildStages_def Let_def)

lemma demo_plan_1:
  "buildStages [demo_file_op ''file-2'' FileEnsure ''README.md'' ''hello'' (Some [''missing-op''])] [] =
    ([\<lparr>st_id = ''stage-1'',
       st_operations = [demo_file_op ''file-2'' FileEnsure ''README.md'' ''hello'' (Some [''missing-op''])],
       st_parallel = False\<rparr>],
     [''Operation file-2 depends on missing operation missing-op. It will run anyway.''])"
  by code_simp

section \<open>Missing dependencies\<close>

text \<open>
  Claim C5. Let \<open>x\<close> be an operation of the input one of whose declared dependencies \<open>y\<close>
  is the id of no operation of the input. Then: the plan's warnings contain
  \<^verbatim>\<open>Operation X depends on missing operation Y. It will run anyway.\<close>; the in-degrees and
  successor sets are those of the input with the missing dependencies removed; and, when
  the ids are pairwise distinct, \<open>x\<close> is an operation of some stage of the plan (so the
  executor reaches it), and of the stage \<^verbatim>\<open>stage-1\<close>, the first, when all its dependencies
  are missing.
\<close>

theorem missing_dependency_planned:
  assumes "x \<in> set ops" "y \<in> set (op_dependencies x)" "y \<notin> op_id ` set ops"
  shows "(\<exists>ws. planner_warnings ops = Some ws \<and> missing_dependency_warning (op_id x) y \<in> set ws)
    \<and> same_graph (collect_dependencies ops []) (collect_dependencies (without_missing_dependencies ops) [])
    \<and> (distinct (map op_id ops) \<longrightarrow>
         x \<in> set (plan_operations (planner_stages ops))
         \<and> ((\<forall>d\<in>set (op_dependencies x). d \<notin> op_id ` set ops) \<longrightarrow>
              (\<exists>sops more. planner_stages ops =
                 \<lparr>st_id = ''stage-1'', st_operations = sops, st_parallel = (length sops > 1)\<rparr> # more
                 \<and> x \<in> set sops)))"
proof -
  have w: "missing_dependency_warning (op_id x) y \<in> set (snd (buildStages ops []))"
    using collect_dependencies_missing [OF assms, of "[]"]
    by (simp add: buildStages_warnings Let_def)
  then have "snd (buildStages ops []) \<noteq> []" by auto
  with w have a: "\<exists>ws. planner_warnings ops = Some ws \<and> missing_dependency_warning (op_id x) y \<in> set ws"
    by (simp add: planner_warnings_def Let_def)
  show ?thesis
    using a collect_dependencies_ignores_missing [of ops "[]"]
      buildStages_covers [OF _ assms(1), of "[]"]
      buildStages_first_stage [OF _ assms(1), of "[]"]
    by (simp add: planner_stages_def)
qed

theorem missing_dependency_planned_witness:
  "demo_file_op ''file-2'' FileEnsure ''README.md'' ''hello'' (Some [''missing-op''])
     \<in> set [demo_file_op ''file-2'' FileEnsure ''README.md'' ''hello'' (Some [''missing-op''])]
   \<and> ''missing-op'' \<in> set (op_dependencies
         (demo_file_op ''file-2'' FileEnsure ''README.md'' ''hello'' (Some [''missing-op''])))
   \<and> ''missing-op'' \<notin> op_id `
         set [demo_file_op ''file-2'' FileEnsure ''README.md'' ''hello'' (Some [''missing-op''])]
   \<and> distinct (map op_id [demo_file_op ''file-2'' FileEnsure ''README.md'' ''hello'' (Some [''missing-op''])])
   \<and> planner_warnings [demo_file_op ''file-2'' FileEnsure ''README.md'' ''hello'' (Some [''missing-op''])]
       = Some [''Operation file-2 depends on missing operation missing-op. It will run anyway.'']
   \<and> planner_stages [demo_file_op ''file-2'' FileEnsure ''README.md'' ''hello'' (Some [''missing-op''])]
       = [\<lparr>st_id = ''stage-1'',
           st_operations = [demo_file_op ''file-2'' FileEnsure ''README.md'' ''hello'' (Some [''missing-op''])],
           st_parallel = False\<rparr>]
   \<and> same_graph
         (collect_dependencies [demo_file_op ''file-2'' FileEnsure ''README.md'' ''hello'' (Some [''missing-op''])] [])
         (collect_dependencies (without_missing_dependencies
            [demo_file_op ''file-2'' FileEnsure ''README.md'' ''hello'' (Some [''missing-op''])]) [])
   \<and> demo_file_op ''file-2'' FileEnsure ''README.md'' ''hello'' (Some [''missing-op''])
       \<in> set (plan_operations (planner_stages
           [demo_file_op ''file-2'' FileEnsure ''README.md'' ''hello'' (Some [''missing-op''])]))"
proof -
  let ?x = "demo_file_op ''file-2'' FileEnsure ''README.md'' ''hello'' (Some [''missing-op''])"
  have h1: "?x \<in> set [?x]" by simp
  have h2: "''missing-op'' \<in> set (op_dependencies ?x)"
    by (simp add: op_dependencies_def demo_file_op_def)
  have h3: "''missing-op'' \<notin> op_id ` set [?x]"
    by (simp add: op_id_def demo_file_op_def)
  have h4: "distinct (map op_id [?x])" by simp
  from missing_dependency_planned [OF h1 h2 h3] h4
  have t: "same_graph (collect_dependencies [?x] []) (collect_dependencies (without_missing_dependencies [?x]) [])"
          "?x \<in> set (plan_operations (planner_stages [?x]))"
    by blast+
  have e: "planner_warnings [?x] = Some [''Operation file-2 depends on missing operation missing-op. It will run anyway.'']"
          "planner_stages [?x] = [\<lparr>st_id = ''stage-1'', st_operations = [?x], st_parallel = False\<rparr>]"
    by (simp_all add: planner_warnings_def planner_stages_def demo_plan_1)
  from h1 h2 h3 h4 t e show ?thesis by blast
qed

section \<open>Config merge analysis\<close>

lemma merge_of_non_object_is_set:
  "\<not> is_plain_object (co_value operation) \<Longrightarrow> co_action operation = ConfigMerge \<Longrightarrow>
   evaluateDocument document operation = evaluateDocument document (operation\<lparr>co_action := ConfigSet\<rparr>)"
  by (simp add: evaluateDocument_def Let_def)

lemma merge_of_object_needed:
  "is_plain_object (co_value operation) \<Longrightarrow> co_action operation = ConfigMerge \<Longrightarrow>
   ar_needed (evaluateDocument document operation) \<longleftrightarrow>
     \<not> isDeepSubset (getPointerValue document (co_pointer operation)) (co_value operation)"
  by (simp add: evaluateDocument_def Let_def)

text \<open>
  Claim C6. For a merge whose value is not a plain object the analysis is that of a set
  (\<open>merge_of_non_object_is_set\<close>), and for a plain object \<open>needed\<close> is the negation of
  \<^verbatim>\<open>isDeepSubset\<close> (\<open>merge_of_object_needed\<close>). But \<^verbatim>\<open>isDeepSubset\<close> is not the subset
  relation of the claim: its guard \<^verbatim>\<open>target === undefined || target === null\<close> answers
  \<open>False\<close> before a \<^verbatim>\<open>null\<close> member of the value is compared with a \<^verbatim>\<open>null\<close> member of the
  target. On the document \<^verbatim>\<open>{"a":{"b":null}}\<close> the merge of \<^verbatim>\<open>{"b":null}\<close> at \<^verbatim>\<open>/a\<close> is
  reported as needed although value and current value are the same; the set of the same
  value and the merge of a bare \<^verbatim>\<open>null\<close> are reported as not needed, and the executor's
  merge of the same operation changes nothing.
\<close>

theorem merge_analysis_null_member:
  "getPointerValue (JObj [(''a'', JObj [(''b'', JNull)])]) ''/a'' = Some (JObj [(''b'', JNull)])
   \<and> ar_needed (evaluateDocument (JObj [(''a'', JObj [(''b'', JNull)])])
        (demo_config_op ConfigMerge ''/a'' (Some (JObj [(''b'', JNull)])))) = True
   \<and> ar_needed (evaluateDocument (JObj [(''a'', JObj [(''b'', JNull)])])
        (demo_config_op ConfigSet ''/a'' (Some (JObj [(''b'', JNull)])))) = False
   \<and> ar_needed (evaluateDocument (JObj [(''b'', JNull)])
        (demo_config_op ConfigMerge ''/b'' (Some JNull))) = False
   \<and> applyConfigMutation (JObj [(''a'', JObj [(''b'', JNull)])])
        (demo_config_op ConfigMerge ''/a'' (Some (JObj [(''b'', JNull)])))
       = Inr (False, JObj [(''a'', JObj [(''b'', JNull)])])"
  by code_simp

theorem merge_analysis_null_member_witness:
  "ar_needed (evaluateDocument (JObj [(''a'', JObj [(''b'', JNull)])])
      (demo_config_op ConfigMerge ''/a'' (Some (JObj [(''b'', JNull)]))))"
  using merge_analysis_null_member by simp

section \<open>Equal content leaves the permission bits alone\<close>




section \<open>Path safety\<close>








section \<open>Dry runs and the journal\<close>














section \<open>Journal snapshot truncation\<close>




section \<open>Objects created along a pointer\<close>

lemma obj_put_fresh: "obj_put k x [] = [(k, x)]"
  by (simp add: obj_put_def split: option.splits)

lemma map_of_insert_index:
  "map_of kvs k = None \<Longrightarrow> map_of (insert_index i k x kvs) k = Some x"
  by (induction kvs) (auto split: option.splits if_splits)

lemma map_of_obj_put: "map_of (obj_put k x kvs) k = Some x"
  by (auto simp: obj_put_def update_conv' map_of_insert_index map_add_def split: option.splits)

lemma update_insert_index:
  "map_of kvs k = None \<Longrightarrow> AList.update k y (insert_index i k x kvs) = insert_index i k y kvs"
  by (induction kvs) (auto split: option.splits if_splits)

lemma update_snoc_fresh:
  "map_of kvs k = None \<Longrightarrow> AList.update k y (kvs @ [(k, x)]) = kvs @ [(k, y)]"
  by (induction kvs) (auto split: if_splits)

lemma update_obj_put: "AList.update k y (obj_put k x kvs) = obj_put k y kvs"
  by (auto simp: obj_put_def update_insert_index update_snoc_fresh split: option.splits)

lemma js_get_fresh:
  "k \<noteq> ''__proto__'' \<Longrightarrow> null_missing_or_not_object (js_get (JObj []) k)"
  by (simp add: js_get_def prototype_get_def null_missing_or_not_object_def)

lemma walk_fresh:
  "''__proto__'' \<notin> set ks \<Longrightarrow>
   walk_to_parent True (JObj []) ks = Inr (fresh_chain ks (JObj []), True)"
proof (induction ks)
  case Nil
  then show ?case by simp
next
  case (Cons k ks)
  then have k: "k \<noteq> ''__proto__''" "''__proto__'' \<noteq> k" and ih: "walk_to_parent True (JObj []) ks = Inr (fresh_chain ks (JObj []), True)"
    by auto
  from js_get_fresh [OF k(1)] show ?case
    using ih k
    by (auto simp: js_read_def null_missing_or_not_object_def set_prop_def obj_assign_def obj_put_fresh replace_prop_def
          split: option.splits json.splits)
qed

lemma walk_replaces_here:
  assumes "null_missing_or_not_object (js_get (JObj kvs) s)" and "''__proto__'' \<notin> set rest"
  shows "walk_to_parent True (JObj kvs) (s # rest) =
           Inr (JObj (obj_put s (fresh_chain rest (JObj [])) kvs), True)"
    and "walk_to_parent False (JObj kvs) (s # rest) = Inr (JObj kvs, False)"
proof -
  have np: "\<not> (s = ''__proto__'' \<and> map_of kvs s = None)"
    using assms(1) by (auto simp: js_get_def null_missing_or_not_object_def split: option.splits)
  have sp: "set_prop (JObj kvs) s (Some (JObj [])) = Inr (JObj (obj_put s (JObj []) kvs))"
    using np by (auto simp: set_prop_def obj_assign_def)
  have rp: "replace_prop (JObj (obj_put s (JObj []) kvs)) s child = JObj (obj_put s child kvs)" for child
    by (simp add: replace_prop_def map_of_obj_put update_obj_put)
  show "walk_to_parent True (JObj kvs) (s # rest) =
           Inr (JObj (obj_put s (fresh_chain rest (JObj [])) kvs), True)"
    using assms(1) sp rp walk_fresh [OF assms(2)]
    by (auto simp: js_read_def null_missing_or_not_object_def split: option.splits json.splits)
  show "walk_to_parent False (JObj kvs) (s # rest) = Inr (JObj kvs, False)"
    using assms(1)
    by (auto simp: js_read_def null_missing_or_not_object_def split: option.splits json.splits)
qed

lemma js_get_own: "map_of kvs k = Some v \<Longrightarrow> js_get (JObj kvs) k = Some v"
  by (simp add: js_get_def)

lemma walk_replaces:
  assumes "object_at node pre = Some kvs" "null_missing_or_not_object (js_get (JObj kvs) s)" "''__proto__'' \<notin> set rest"
  shows "walk_to_parent True node (pre @ s # rest) =
           Inr (put_at node pre (JObj (obj_put s (fresh_chain rest (JObj [])) kvs)), True)
       \<and> walk_to_parent False node (pre @ s # rest) = Inr (node, False)"
  using assms(1)
proof (induction node pre rule: object_at.induct)
  case (1 kvs')
  then show ?case using walk_replaces_here [OF assms(2,3)] by simp
next
  case (2 kvs' k ks)
  then obtain child where c: "map_of kvs' k = Some child" "object_at child ks = Some kvs"
    by (auto split: option.splits)
  then obtain ckvs where ck: "child = JObj ckvs" by (cases child) auto
  from 2 c have ih: "walk_to_parent True child (ks @ s # rest) =
           Inr (put_at child ks (JObj (obj_put s (fresh_chain rest (JObj [])) kvs)), True)
       \<and> walk_to_parent False child (ks @ s # rest) = Inr (child, False)"
    by simp
  have triv: "AList.update k child kvs' = kvs'"
    using c(1) by (rule update_triv)
  show ?case
    using c ck ih triv by (simp add: js_read_def js_get_own replace_prop_def)
qed simp_all

lemma value_at_fresh_chain:
  "''__proto__'' \<notin> set ks \<Longrightarrow> value_at (fresh_chain ks x) ks = Some x"
  by (induction ks) (simp_all add: js_get_def)

lemma put_at_fresh_chain:
  "put_at (fresh_chain ks x) ks y = fresh_chain ks y"
  by (induction ks) (simp_all add: js_get_def replace_prop_def)

lemma fresh_chain_append: "fresh_chain (ks @ [k]) v = fresh_chain ks (JObj [(k, v)])"
  by (induction ks) simp_all

lemma value_at_append: "value_at node (p @ q) = (case value_at node p of None \<Rightarrow> None | Some v \<Rightarrow> value_at v q)"
  by (induction p arbitrary: node) (auto split: option.splits)

lemma object_at_put_at:
  "object_at node pre = Some kvs \<Longrightarrow>
     value_at (put_at node pre X) pre = Some X
   \<and> put_at (put_at node pre X) pre Y = put_at node pre Y"
proof (induction node pre rule: object_at.induct)
  case (2 kvs' k ks)
  then obtain child where c: "map_of kvs' k = Some child" "object_at child ks = Some kvs"
    by (auto split: option.splits)
  with 2 have ih: "value_at (put_at child ks X) ks = Some X"
      "put_at (put_at child ks X) ks Y = put_at child ks Y"
    by simp_all
  show ?case using c ih by (simp add: js_get_def replace_prop_def update_conv')
qed simp_all

lemma put_at_append:
  "value_at node p = Some v \<Longrightarrow> put_at node (p @ q) Y = put_at node p (put_at v q Y)"
  by (induction p arbitrary: node) (auto split: option.splits)

text \<open>
  The walk of \<^verbatim>\<open>getParent\<close> away from \<^verbatim>\<open>__proto__\<close>. The pointer is \<open>pre @ s # rest @ [key]\<close>: the
  segments \<open>pre\<close> lead through own members that are objects to the object \<open>kvs\<close>, and what
  the code reads there at \<open>s\<close> is \<^verbatim>\<open>null\<close>, \<^verbatim>\<open>undefined\<close> or of a type other than
  \<^verbatim>\<open>'object'\<close>. When no later segment is \<^verbatim>\<open>__proto__\<close>, a set or a merge puts at \<open>s\<close> a chain of
  new objects that holds nothing but the value (the previous value at \<open>s\<close> is gone, and a
  new key takes the place that the order of the own keys gives it), and an unset
  reports no change and leaves the document as it was.
\<close>

lemma intermediate_values_replaced:
  assumes "decodePointer (co_pointer operation) = pre @ s # rest @ [key]"
    and "object_at document pre = Some kvs"
    and "null_missing_or_not_object (js_get (JObj kvs) s)"
    and "''__proto__'' \<notin> set (rest @ [key])"
  shows "(co_action operation \<noteq> ConfigUnset \<and> key \<noteq> [] \<and> co_value operation = Some v
            \<and> printed (Some v) = Some v \<longrightarrow>
            applyConfigMutation document operation =
              Inr (True, put_at document pre (JObj (obj_put s (fresh_chain (rest @ [key]) v) kvs))))
       \<and> (co_action operation = ConfigUnset \<longrightarrow>
            applyConfigMutation document operation = Inr (False, document))"
proof -
  let ?segs = "pre @ s # rest @ [key]"
  let ?doc1 = "put_at document pre (JObj (obj_put s (fresh_chain rest (JObj [])) kvs))"
  have pr: "''__proto__'' \<notin> set rest" "key \<noteq> ''__proto__''" using assms(4) by auto
  have bl: "butlast ?segs = pre @ s # rest" "last ?segs = key" "length ?segs \<noteq> 0"
    by (simp_all add: butlast_append)
  from walk_replaces [OF assms(2,3) pr(1)]
  have gp: "getParent document ?segs True = Inr (?doc1, Some (pre @ s # rest, key))"
           "getParent document ?segs False = Inr (document, None)"
    unfolding getParent_def bl by simp_all
  have va: "value_at ?doc1 (pre @ s # rest) = Some (JObj [])"
    using object_at_put_at [OF assms(2)] pr(1)
    by (simp add: value_at_append js_get_def map_of_obj_put value_at_fresh_chain)
  have pa: "put_at ?doc1 (pre @ s # rest) (JObj [(key, v)]) =
            put_at document pre (JObj (obj_put s (fresh_chain (rest @ [key]) v) kvs))"
    using object_at_put_at [OF assms(2)]
    by (simp add: put_at_append [where v = "JObj (obj_put s (fresh_chain rest (JObj [])) kvs)"]
          js_get_def map_of_obj_put replace_prop_def put_at_fresh_chain fresh_chain_append
          update_obj_put)
  have rd: "js_read (JObj []) key = Inr (js_get (JObj []) key)" by (simp add: js_read_def)
  have ex: "printed (js_get (JObj []) key) = None" "own_entries (js_get (JObj []) key) = None"
    using pr(2) by (auto simp: js_get_def prototype_get_def printed_def own_entries_def)
  have sp: "set_prop (JObj []) key (Some v) = Inr (JObj [(key, v)])"
    using pr(2) by (simp add: set_prop_def obj_assign_def obj_put_fresh)
  show ?thesis
    using gp va pa assms(1) rd ex sp
    by (cases "co_action operation")
       (auto simp: applyConfigMutation_def Let_def truthy_def isEqual_def)
qed

text \<open>
  Claim C8. The document \<^verbatim>\<open>{}\<close> has no member \<^verbatim>\<open>__proto__\<close>, so by the claim a set at
  \<^verbatim>\<open>/__proto__/polluted\<close> puts a new object there and writes into it, and an unset at
  \<^verbatim>\<open>/__proto__/toString\<close> reports no change. The code reads \<^verbatim>\<open>parent['__proto__']\<close>,
  which is \<^verbatim>\<open>Object.prototype\<close> and passes both tests of \<^verbatim>\<open>getParent\<close>: the walk creates
  nothing, arrives with the prototype as the parent, and the set, the merge and the
  unset then assign to, or delete, a property of \<^verbatim>\<open>Object.prototype\<close> itself
  (\<open>PrototypeWrite\<close> is that write, which the code carries out without throwing; the
  document stays \<^verbatim>\<open>{}\<close>). The same operations at \<^verbatim>\<open>/a/polluted\<close> and \<^verbatim>\<open>/a/toString\<close> do what
  the claim says.
\<close>

theorem pointer_through_prototype:
  "getParent (JObj []) (decodePointer ''/__proto__/polluted'') True
     = Inr (JObj [], Some ([''__proto__''], ''polluted''))
   \<and> value_at (JObj []) [''__proto__''] = Some (JsPrototype ObjectPrototype)
   \<and> applyConfigMutation (JObj [])
         (demo_config_op ConfigSet ''/__proto__/polluted'' (Some (JBool True)))
       = Inl (PrototypeWrite ObjectPrototype ''polluted'')
   \<and> applyConfigMutation (JObj [])
         (demo_config_op ConfigMerge ''/__proto__/polluted'' (Some (JBool True)))
       = Inl (PrototypeWrite ObjectPrototype ''polluted'')
   \<and> getParent (JObj []) (decodePointer ''/__proto__/toString'') False
     = Inr (JObj [], Some ([''__proto__''], ''toString''))
   \<and> applyConfigMutation (JObj [])
         (demo_config_op ConfigUnset ''/__proto__/toString'' None)
       = Inl (PrototypeWrite ObjectPrototype ''toString'')
   \<and> applyConfigMutation (JObj [])
         (demo_config_op ConfigSet ''/a/polluted'' (Some (JBool True)))
       = Inr (True, JObj [(''a'', JObj [(''polluted'', JBool True)])])
   \<and> applyConfigMutation (JObj [])
         (demo_config_op ConfigUnset ''/a/toString'' None)
       = Inr (False, JObj [])"
  by code_simp

theorem pointer_through_prototype_witness:
  "applyConfigMutation (JObj [])
         (demo_config_op ConfigSet ''/__proto__/polluted'' (Some (JBool True)))
       \<noteq> Inr (True, JObj [(''__proto__'', JObj [(''polluted'', JBool True)])])"
  using pointer_through_prototype by simp

end
